theory Spec2Isabelle
  imports Main "HOL-Library.Word" "HOL-Library.Finite_Map"
begin

unbundle bit_operations_syntax

section \<open>Data model (shutdown_db.h)\<close>

text \<open>
  \<open>Oid\<close> is PostgreSQL's unsigned 32-bit object identifier, \<open>pid_t\<close> and \<open>int\<close> are
  32-bit signed integers; all three are 32-bit words, read with \<open>sint\<close> where the sign
  matters. \<open>InvalidOid\<close> is \<open>((Oid) 0)\<close> (postgres_ext.h) and \<open>InvalidPid\<close> is \<open>(-1)\<close>
  (miscadmin.h).
\<close>

type_synonym oid = "32 word"
type_synonym pid_t = "32 word"
type_synonym c_int = "32 word"

definition InvalidOid :: oid where
  "InvalidOid = 0"

definition InvalidPid :: pid_t where
  "InvalidPid = - 1"

text \<open>\<open>enum mode\<close>.\<close>

datatype mode = INIT | NORMAL | ABORT | IMMEDIATE | TRANSACTIONAL

text \<open>
  \<open>struct sddbHashKey\<close> has the single field \<open>dbid\<close>, so a key is an \<open>oid\<close>.
  \<open>struct sddbEntry\<close>: the spin lock \<open>mutex\<close> carries no data; taking and releasing
  it is recorded in the event trace below. The field \<open>key\<close> is written by the hash
  table only (see \<open>string_key\<close> below), the other fields by the store.
\<close>

type_synonym sddbHashKey = oid

record sddbEntry =
  key :: sddbHashKey
  dbid :: oid
  mode :: mode
  is_running :: bool
  pid :: pid_t

text \<open>
  \<open>struct sddbSharedState\<close>: the counters; \<open>lock\<close> and \<open>elock\<close> appear in the event
  trace only.
\<close>

record sddbSharedState =
  num_ht :: c_int
  num_bgw :: c_int

text \<open>
  The shared hash table \<open>HTAB\<close> is PostgreSQL's dynahash, which is not part of the
  repository. It is modelled by its contract: a finite map from keys, as the table
  tells them apart (see \<open>string_key\<close> below), to entries, and \<open>capacity\<close>, the number of
  entries the shared-memory allocation made by \<open>ShmemInitHash\<close> can hold;
  \<open>HASH_ENTER_NULL\<close> returns \<open>NULL\<close> once no further entry can be allocated.
\<close>

record HTAB =
  entries :: "(sddbHashKey, sddbEntry) fmap"
  capacity :: nat

text \<open>
  The two process-local pointers \<open>sddb\<close> and \<open>sddb_hash\<close> of shutdown_db.c; \<open>None\<close> is
  the \<open>NULL\<close> pointer.
\<close>

record globals =
  sddb :: "sddbSharedState option"
  sddb_hash :: "HTAB option"

text \<open>
  What a function does besides computing its result: lock traffic, warnings and log
  lines, and the conditions handed to \<open>Assert\<close>. \<open>Assert\<close> is PostgreSQL's macro, which
  expands to nothing unless the server is built with assertion checking, so an
  \<open>Assert\<close> event records the value of its condition and has no other effect.
\<close>

datatype LWLockMode = LW_EXCLUSIVE | LW_SHARED

datatype spinlock = elock | mutex sddbHashKey

datatype elevel = LOG | WARNING | ERROR | FATAL

datatype event =
    LWLockAcquire LWLockMode
  | LWLockRelease
  | SpinLockInit spinlock
  | SpinLockAcquire spinlock
  | SpinLockRelease spinlock
  | elog elevel string
  | Assert bool

section \<open>The registry store (hashtable.c)\<close>

subsection \<open>dynahash operations used by the store\<close>

text \<open>
  \<open>sddb_shmem_startup\<close> creates the table with the flag \<open>HASH_ELEM\<close> alone: neither
  \<open>HASH_BLOBS\<close> nor a hash or comparison function is given. dynahash then treats the
  key as a C string: it hashes with \<open>string_hash\<close>, compares with \<open>strncmp\<close> over
  \<open>keysize - 1\<close> bytes and copies the key into a new element with \<open>strlcpy\<close>. The key
  size is \<open>sizeof(sddbHashKey) = 4\<close>, so the string is made of at most the first three
  bytes of the \<open>Oid\<close> in memory, on a little-endian machine its low three bytes, lowest
  first, and it ends before the first zero byte among them.

  \<open>string_key k\<close> is the \<open>Oid\<close> that has the bytes of this string and zero bytes behind
  them. Two keys are the same key for the table exactly when their \<open>string_key\<close> is
  equal: 5 and 7 are different keys, while 16384, 16640 and 65536 (low byte zero: the
  empty string) are one key, and so are two \<open>Oid\<close>s that differ in the highest byte
  only. It is also what \<open>strlcpy\<close> leaves in the \<open>key\<close> field of a zeroed element; the
  bytes behind the terminator are not written, and nothing in the store reads them.
\<close>

definition string_key :: "sddbHashKey \<Rightarrow> sddbHashKey" where
  "string_key k =
     (if k AND 0xFF = 0 then 0
      else if k AND 0xFF00 = 0 then k AND 0xFF
      else if k AND 0xFF0000 = 0 then k AND 0xFFFF
      else k AND 0xFFFFFF)"

text \<open>\<open>hash_search(sddb_hash, key, HASH_FIND, NULL)\<close>.\<close>

definition hash_find :: "sddbHashKey \<Rightarrow> HTAB \<Rightarrow> sddbEntry option" where
  "hash_find k h = fmlookup (entries h) (string_key k)"

text \<open>
  \<open>hash_search(sddb_hash, key, HASH_ENTER_NULL, &found)\<close>: the existing entry, or a
  new element for the key, or \<open>NULL\<close> when the table cannot take another element.
\<close>

datatype enter_result = OutOfMemory | Found sddbEntry | Created

definition hash_enter_null :: "sddbHashKey \<Rightarrow> HTAB \<Rightarrow> enter_result" where
  "hash_enter_null k h =
     (case fmlookup (entries h) (string_key k) of
        Some e \<Rightarrow> Found e
      | None \<Rightarrow> if capacity h \<le> fcard (fmdom (entries h)) then OutOfMemory else Created)"

text \<open>\<open>hash_search(sddb_hash, key, HASH_REMOVE, NULL)\<close>.\<close>

definition hash_remove :: "sddbHashKey \<Rightarrow> HTAB \<Rightarrow> HTAB" where
  "hash_remove k h = h\<lparr>entries := fmdrop (string_key k) (entries h)\<rparr>"

text \<open>
  Writing through the entry pointer that a search for key \<open>k\<close> returned: the element
  found under \<open>k\<close> gets the new contents.
\<close>

definition put_entry :: "sddbHashKey \<Rightarrow> sddbEntry \<Rightarrow> HTAB \<Rightarrow> HTAB" where
  "put_entry k e h = h\<lparr>entries := fmupd (string_key k) e (entries h)\<rparr>"

subsection \<open>alloc_entry\<close>

text \<open>
  A new element holds only its key, copied as a string, when dynahash returns it;
  \<open>alloc_entry\<close> initialises every other field before anything can read it (the
  caller holds the exclusive lock). In the trace, \<open>mutex k\<close> is the spin lock of the
  element that the search for \<open>k\<close> returned.
\<close>

definition alloc_entry :: "sddbHashKey \<Rightarrow> HTAB \<Rightarrow> sddbEntry option \<times> HTAB \<times> event list" where
  "alloc_entry k h =
     (case hash_enter_null k h of
        OutOfMemory \<Rightarrow> (None, h, [])
      | Found e \<Rightarrow> (Some e, h, [])
      | Created \<Rightarrow>
          (let e = \<lparr>key = string_key k, dbid = InvalidOid, mode = INIT, is_running = False,
                    pid = InvalidPid\<rparr>
           in (Some e, put_entry k e h, [SpinLockInit (mutex k)])))"

subsection \<open>sddb_store_entry\<close>

text \<open>
  Lines 77 to 80: the look-up under the shared lock.
\<close>

definition sddb_store_entry_probe :: "oid \<Rightarrow> HTAB \<Rightarrow> sddbEntry option \<times> event list" where
  "sddb_store_entry_probe d h =
     (hash_find d h, [LWLockAcquire LW_SHARED, LWLockRelease])"

text \<open>
  Lines 88 to 115: everything from taking the exclusive lock to the return. The lock is
  free between the probe and this phase, so another process may have changed the shared
  state in between; the phase is therefore a function of the shared state it finds.
\<close>

definition sddb_store_entry_exclusive ::
  "oid \<Rightarrow> mode \<Rightarrow> bool \<Rightarrow> sddbSharedState \<Rightarrow> HTAB \<Rightarrow> bool \<times> sddbSharedState \<times> HTAB \<times> event list" where
  "sddb_store_entry_exclusive d m r s h =
     (case alloc_entry d h of
        (None, h', ev) \<Rightarrow>
          (False, s, h',
           [LWLockAcquire LW_EXCLUSIVE] @ ev @
           [LWLockRelease, elog WARNING ''New entry was not created since hash table is full.''])
      | (Some e, h', ev) \<Rightarrow>
          (let e' = e\<lparr>dbid := d, mode := m, is_running := r, pid := InvalidPid\<rparr>
           in (True, s\<lparr>num_ht := num_ht s + 1\<rparr>, put_entry d e' h',
               [LWLockAcquire LW_EXCLUSIVE] @ ev @
               [SpinLockAcquire (mutex d), SpinLockRelease (mutex d), LWLockRelease,
                SpinLockAcquire elock, SpinLockRelease elock])))"

definition sddb_store_entry :: "oid \<Rightarrow> mode \<Rightarrow> bool \<Rightarrow> globals \<Rightarrow> bool \<times> globals \<times> event list" where
  "sddb_store_entry d m r g =
     (case (sddb g, sddb_hash g) of
        (Some s, Some h) \<Rightarrow>
          (case sddb_store_entry_probe d h of
             (Some e, ev) \<Rightarrow> (False, g, ev @ [elog WARNING ''database %u is already stored.''])
           | (None, ev) \<Rightarrow>
               (case sddb_store_entry_exclusive d m r s h of
                  (b, s', h', ev') \<Rightarrow> (b, g\<lparr>sddb := Some s', sddb_hash := Some h'\<rparr>, ev @ ev')))
      | _ \<Rightarrow> (False, g, []))"

subsection \<open>sddb_find_entry\<close>

definition sddb_find_entry :: "oid \<Rightarrow> bool \<Rightarrow> globals \<Rightarrow> bool \<times> event list" where
  "sddb_find_entry d r g =
     (case (sddb g, sddb_hash g) of
        (Some s, Some h) \<Rightarrow>
          if num_ht s = 0 then (False, [SpinLockAcquire elock, SpinLockRelease elock])
          else
            (let ev = [SpinLockAcquire elock, SpinLockRelease elock,
                       LWLockAcquire LW_SHARED, LWLockRelease]
             in case hash_find d h of
                  None \<Rightarrow> (False, ev)
                | Some e \<Rightarrow>
                    if r then
                      (if is_running e
                       then (True, ev @ [SpinLockAcquire (mutex d), SpinLockRelease (mutex d)])
                       else (False, ev @ [SpinLockAcquire (mutex d), SpinLockRelease (mutex d)]))
                    else (True, ev))
      | _ \<Rightarrow> (False, []))"

subsection \<open>sddb_get_pid\<close>

definition sddb_get_pid :: "oid \<Rightarrow> bool \<Rightarrow> globals \<Rightarrow> pid_t \<times> event list" where
  "sddb_get_pid d is_active g =
     (case (sddb g, sddb_hash g) of
        (Some s, Some h) \<Rightarrow>
          (case hash_find d h of
             None \<Rightarrow> (InvalidPid, [LWLockAcquire LW_EXCLUSIVE, LWLockRelease])
           | Some e \<Rightarrow>
               (let ev = [LWLockAcquire LW_EXCLUSIVE, SpinLockAcquire (mutex d),
                          SpinLockRelease (mutex d), LWLockRelease]
                in if \<not> is_active then (pid e, ev)
                   else (if is_running e then pid e else InvalidPid, ev)))
      | _ \<Rightarrow> (InvalidPid, []))"

subsection \<open>sddb_set_entry and sddb_set_pid2entry\<close>

definition sddb_set_entry :: "oid \<Rightarrow> bool \<Rightarrow> globals \<Rightarrow> bool \<times> globals \<times> event list" where
  "sddb_set_entry d r g =
     (case (sddb g, sddb_hash g) of
        (Some s, Some h) \<Rightarrow>
          (case hash_find d h of
             None \<Rightarrow> (False, g, [LWLockAcquire LW_EXCLUSIVE, LWLockRelease])
           | Some e \<Rightarrow>
               (True, g\<lparr>sddb_hash := Some (put_entry d (e\<lparr>is_running := r\<rparr>) h)\<rparr>,
                [LWLockAcquire LW_EXCLUSIVE, SpinLockAcquire (mutex d),
                 SpinLockRelease (mutex d), LWLockRelease]))
      | _ \<Rightarrow> (False, g, []))"

definition sddb_set_pid2entry :: "oid \<Rightarrow> pid_t \<Rightarrow> globals \<Rightarrow> bool \<times> globals \<times> event list" where
  "sddb_set_pid2entry d p g =
     (case (sddb g, sddb_hash g) of
        (Some s, Some h) \<Rightarrow>
          (case hash_find d h of
             None \<Rightarrow> (False, g, [LWLockAcquire LW_EXCLUSIVE, LWLockRelease])
           | Some e \<Rightarrow>
               (True, g\<lparr>sddb_hash := Some (put_entry d (e\<lparr>pid := p\<rparr>) h)\<rparr>,
                [LWLockAcquire LW_EXCLUSIVE, SpinLockAcquire (mutex d),
                 SpinLockRelease (mutex d), LWLockRelease]))
      | _ \<Rightarrow> (False, g, []))"

subsection \<open>sddb_delete_entry\<close>

text \<open>
  The result of \<open>hash_search\<close> is not looked at, and the counter is decremented
  whatever it was; \<open>Assert(0 < sddb->num_ht)\<close> is read signed, as the C \<open>int\<close> is.
\<close>

definition sddb_delete_entry :: "oid \<Rightarrow> globals \<Rightarrow> globals \<times> event list" where
  "sddb_delete_entry d g =
     (case (sddb g, sddb_hash g) of
        (Some s, Some h) \<Rightarrow>
          (g\<lparr>sddb := Some (s\<lparr>num_ht := num_ht s - 1\<rparr>), sddb_hash := Some (hash_remove d h)\<rparr>,
           [LWLockAcquire LW_EXCLUSIVE, LWLockRelease,
            SpinLockAcquire elock, Assert (0 < sint (num_ht s)), SpinLockRelease elock])
      | _ \<Rightarrow> (g, []))"

section \<open>Start-up and the interception hooks (shutdown_db.c)\<close>

text \<open>
  \<open>sddb_shmem_startup\<close> attaches both pointers, zeroes the two counters and creates an
  empty table; the argument is the capacity of the table it obtains for
  \<open>max_db_number\<close>.
\<close>

definition sddb_shmem_startup :: "nat \<Rightarrow> globals" where
  "sddb_shmem_startup n =
     \<lparr>sddb = Some \<lparr>num_ht = 0, num_bgw = 0\<rparr>,
      sddb_hash = Some \<lparr>entries = fmempty, capacity = n\<rparr>\<rparr>"

text \<open>
  \<open>sddb_check_ht\<close> reads \<open>sddb->num_ht\<close> without the safety check of the store's entry
  points: with a \<open>NULL\<close> pointer the process crashes, which is the result \<open>None\<close>. The
  first argument is \<open>MyDatabaseId\<close>.
\<close>

definition sddb_check_ht :: "oid \<Rightarrow> globals \<Rightarrow> (bool \<times> event list) option" where
  "sddb_check_ht MyDatabaseId g =
     (case sddb g of
        None \<Rightarrow> None
      | Some s \<Rightarrow>
          if num_ht s = 0 then Some (False, [SpinLockAcquire elock, SpinLockRelease elock])
          else
            (case sddb_find_entry MyDatabaseId True g of
               (b, ev) \<Rightarrow>
                 Some (if b then True else False,
                       [SpinLockAcquire elock, SpinLockRelease elock] @ ev)))"

text \<open>
  The test both hooks make after the previous (or standard) hook has returned:
  \<open>sddb_check_ht() && !IsTransactionBlock()\<close>. The second argument is the value of
  \<open>IsTransactionBlock()\<close>.
\<close>

definition sddb_intercept :: "oid \<Rightarrow> bool \<Rightarrow> globals \<Rightarrow> (bool \<times> event list) option" where
  "sddb_intercept MyDatabaseId in_block g =
     (case sddb_check_ht MyDatabaseId g of
        None \<Rightarrow> None
      | Some (b, ev) \<Rightarrow> Some (b \<and> \<not> in_block, ev))"

definition shutdown_warning :: string where
  "shutdown_warning =
     ''This database has already been shutdown and this process will be killed within seconds.''"

definition sddb_ExecutorStart :: "oid \<Rightarrow> bool \<Rightarrow> globals \<Rightarrow> event list option" where
  "sddb_ExecutorStart MyDatabaseId in_block g =
     (case sddb_intercept MyDatabaseId in_block g of
        None \<Rightarrow> None
      | Some (b, ev) \<Rightarrow> Some (if b then ev @ [elog WARNING shutdown_warning] else ev))"

definition sddb_ProcessUtility :: "oid \<Rightarrow> bool \<Rightarrow> globals \<Rightarrow> event list option" where
  "sddb_ProcessUtility MyDatabaseId in_block g =
     (case sddb_intercept MyDatabaseId in_block g of
        None \<Rightarrow> None
      | Some (b, ev) \<Rightarrow> Some (if b then ev @ [elog WARNING shutdown_warning] else ev))"

section \<open>The watcher (bgworker.c)\<close>

text \<open>
  An \<open>elog\<close> or \<open>ereport\<close> at level \<open>ERROR\<close> or \<open>FATAL\<close> leaves the function by a
  non-local jump: it is the \<open>Inl\<close> result. The shared memory keeps whatever was written
  to it before the jump; only the database transaction is rolled back.
\<close>

type_synonym error = "elevel \<times> string"

text \<open>Return codes of \<open>SPI_execute\<close> (executor/spi.h).\<close>

definition SPI_OK_UTILITY :: int where
  "SPI_OK_UTILITY = 4"

definition SPI_OK_SELECT :: int where
  "SPI_OK_SELECT = 5"

datatype BgwHandleStatus =
  BGWH_STARTED | BGWH_NOT_YET_STARTED | BGWH_STOPPED | BGWH_POSTMASTER_DIED

text \<open>
  \<open>sddb_killer_launch\<close>: the arguments are what the postmaster answers, the result of
  \<open>RegisterDynamicBackgroundWorker\<close> and the status and pid that
  \<open>WaitForBackgroundWorkerStartup\<close> delivers.
\<close>

definition sddb_killer_launch :: "bool \<Rightarrow> BgwHandleStatus \<Rightarrow> pid_t \<Rightarrow> error + pid_t" where
  "sddb_killer_launch registered status p =
     (if \<not> registered then
        Inl (ERROR, ''This function could not be executed because of the background worker failure.'')
      else if status = BGWH_STOPPED then Inl (ERROR, ''could not start background process'')
      else if status = BGWH_POSTMASTER_DIED then
        Inl (ERROR, ''cannot start background processes without postmaster'')
      else Inr p)"

text \<open>
  What one pass of the main loop of \<open>sddb_killer_main\<close> meets: whether \<open>got_sigterm\<close> is
  set when the loop condition is evaluated (a SIGTERM that arrived after the check of
  the previous pass, or before the first pass), whether \<open>WaitLatch\<close> reports the death of
  the postmaster, whether \<open>got_sigterm\<close> is set at the check after the wait, and the
  answer of \<open>sddb_kill_processes(dbid, TRUE)\<close> through SPI: return code, number of rows,
  and the value of the row (\<open>None\<close> for SQL NULL).
\<close>

record wakeup =
  sigterm_at_loop_test :: bool
  postmaster_death :: bool
  sigterm_after_wait :: bool
  spi_ret :: int
  spi_processed :: nat
  running_processes :: "int option"

datatype outcome = proc_exit int | fatal string | crashed | polling

text \<open>
  \<open>sddb->num_bgw--\<close> under \<open>elock\<close>. The \<open>Assert\<close> beside it names a field
  (\<open>num_hbgw\<close>) that the structure does not have, so it has no value to record.
\<close>

definition dec_num_bgw :: "globals \<Rightarrow> globals option" where
  "dec_num_bgw g =
     (case sddb g of
        None \<Rightarrow> None
      | Some s \<Rightarrow> Some (g\<lparr>sddb := Some (s\<lparr>num_bgw := num_bgw s - 1\<rparr>)\<rparr>))"

text \<open>
  The main loop, one list element per pass; \<open>polling\<close> is the watcher still in the loop
  when the list is used up. A SIGHUP only clears its own flag and is left out. The
  \<open>break\<close> statements after \<open>elog(FATAL, ...)\<close> are never reached, so the only way to
  the \<open>proc_exit(1)\<close> behind the loop is the loop condition.
\<close>

fun killer_loop :: "oid \<Rightarrow> wakeup list \<Rightarrow> globals \<Rightarrow> outcome \<times> globals \<times> event list" where
  "killer_loop d [] g = (polling, g, [])"
| "killer_loop d (w # ws) g =
     (if sigterm_at_loop_test w then (proc_exit 1, g, [])
      else if postmaster_death w then (proc_exit 1, g, [])
      else if sigterm_after_wait w then
        (case dec_num_bgw g of
           None \<Rightarrow> (crashed, g, [])
         | Some g' \<Rightarrow> (proc_exit 0, g', [SpinLockAcquire elock, SpinLockRelease elock]))
      else if spi_ret w \<noteq> SPI_OK_SELECT then (fatal ''SPI_execute failed: error code %d'', g, [])
      else if spi_processed w \<noteq> 1 then (fatal ''%s returned invalid value'', g, [])
      else
        (case running_processes w of
           None \<Rightarrow> (fatal ''null result'', g, [])
         | Some n \<Rightarrow>
             if n = 0 then
               (case sddb_set_entry d False g of
                  (b, g1, ev) \<Rightarrow>
                    (case dec_num_bgw g1 of
                       None \<Rightarrow> (crashed, g1, ev @ [elog LOG ''%s is going down.....''])
                     | Some g2 \<Rightarrow>
                         (proc_exit 0, g2,
                          ev @ [elog LOG ''%s is going down.....'', SpinLockAcquire elock,
                                SpinLockRelease elock])))
             else
               killer_loop d ws g))"

text \<open>
  \<open>sddb_killer_main\<close>: the arguments are \<open>main_arg\<close> (the \<open>int\<close> it carries becomes the
  \<open>Oid\<close> with the same bits), \<open>MyProcPid\<close> and the passes of the loop. It registers its
  pid, increments \<open>num_bgw\<close> and enters the loop.
\<close>

definition sddb_killer_main ::
  "c_int \<Rightarrow> pid_t \<Rightarrow> wakeup list \<Rightarrow> globals \<Rightarrow> outcome \<times> globals \<times> event list" where
  "sddb_killer_main main_arg MyProcPid ws g =
     (case sddb_set_pid2entry main_arg MyProcPid g of
        (b, g1, ev1) \<Rightarrow>
          (case sddb g1 of
             None \<Rightarrow> (crashed, g1, ev1)
           | Some s \<Rightarrow>
               (case killer_loop main_arg ws (g1\<lparr>sddb := Some (s\<lparr>num_bgw := num_bgw s + 1\<rparr>)\<rparr>) of
                  (out, g2, ev2) \<Rightarrow>
                    (out, g2, ev1 @ [SpinLockAcquire elock, SpinLockRelease elock] @ ev2))))"

section \<open>The transactional shutdown request (functions.c)\<close>

definition check_workenv :: "globals \<Rightarrow> error + unit" where
  "check_workenv g =
     (if sddb g = None \<or> sddb_hash g = None then
        Inl (ERROR, ''shutdown_db must be loaded via shared_preload_libraries'')
      else Inr ())"

text \<open>\<open>pg_strcasecmp(a, b) == 0\<close> on ASCII names: equality after folding A to Z to lower case.\<close>

definition pg_tolower :: "char \<Rightarrow> char" where
  "pg_tolower c =
     (let n = (of_char c :: nat) in if 65 \<le> n \<and> n \<le> 90 then char_of (n + 32) else c)"

definition pg_strcasecmp_eq :: "string \<Rightarrow> string \<Rightarrow> bool" where
  "pg_strcasecmp_eq a b = (map pg_tolower a = map pg_tolower b)"

definition check_dbname :: "string \<Rightarrow> bool" where
  "check_dbname dbname =
     (if pg_strcasecmp_eq dbname ''postgres'' \<or> pg_strcasecmp_eq dbname ''template0''
         \<or> pg_strcasecmp_eq dbname ''template1''
      then False else True)"

text \<open>
  \<open>get_dbid\<close>: the arguments are the return code of the query on \<open>pg_database\<close> and the
  \<open>oid\<close> column of its rows (\<open>None\<close> for SQL NULL).
\<close>

definition get_dbid :: "int \<Rightarrow> oid option list \<Rightarrow> error + oid" where
  "get_dbid ret rows =
     (if ret \<noteq> SPI_OK_SELECT then Inl (FATAL, ''SPI_execute failed: error code %d'')
      else
        (case rows of
           [] \<Rightarrow> Inl (ERROR, ''Database %s not found.'')
         | [v] \<Rightarrow> (case v of None \<Rightarrow> Inl (FATAL, ''null result'') | Some d \<Rightarrow> Inr d)
         | _ \<Rightarrow> Inl (ERROR, ''%s is not valid name.'')))"

definition do_alter_database :: "int \<Rightarrow> error + bool" where
  "do_alter_database ret =
     (if ret \<noteq> SPI_OK_UTILITY then Inl (FATAL, ''failed to alter database'') else Inr True)"

text \<open>
  What the server answers during one request: the privilege check, the look-up of the
  database, \<open>ALTER DATABASE\<close>, and the launch of the watcher.
\<close>

record request_env =
  is_allowed_role :: bool
  dbid_ret :: int
  dbid_rows :: "oid option list"
  alter_ret :: int
  registered :: bool
  startup_status :: BgwHandleStatus
  worker_pid :: pid_t
  launch_ret :: int

text \<open>
  \<open>run_sddb_killer\<close> runs \<open>SELECT shutdown_db.sddb_killer_launch(dbid)\<close> through SPI: an
  error raised by \<open>sddb_killer_launch\<close> passes through \<open>SPI_execute\<close> and through the
  caller.
\<close>

definition run_sddb_killer :: "request_env \<Rightarrow> error + bool" where
  "run_sddb_killer env =
     (case sddb_killer_launch (registered env) (startup_status env) (worker_pid env) of
        Inl e \<Rightarrow> Inl e
      | Inr p \<Rightarrow>
          if launch_ret env \<noteq> SPI_OK_SELECT then Inl (FATAL, ''SPI_execute failed: error code %d'')
          else Inr True)"

definition shutdown_transactional ::
  "string \<Rightarrow> request_env \<Rightarrow> globals \<Rightarrow> (error + unit) \<times> globals \<times> event list" where
  "shutdown_transactional dbname env g =
     (case check_workenv g of
        Inl e \<Rightarrow> (Inl e, g, [])
      | Inr _ \<Rightarrow>
          if \<not> is_allowed_role env then
            (Inl (ERROR, ''You cannot execute this function because of no-privilege.''), g, [])
          else if \<not> check_dbname dbname then (Inl (ERROR, ''%s cannot be shutdown.''), g, [])
          else
            (case get_dbid (dbid_ret env) (dbid_rows env) of
               Inl e \<Rightarrow> (Inl e, g, [])
             | Inr d \<Rightarrow>
                 (case sddb_find_entry d False g of
                    (True, ev) \<Rightarrow> (Inr (), g, ev @ [elog WARNING ''%s is already shutdown.''])
                  | (False, ev) \<Rightarrow>
                      (case do_alter_database (alter_ret env) of
                         Inl e \<Rightarrow> (Inl e, g, ev)
                       | Inr _ \<Rightarrow>
                           (case sddb_store_entry d TRANSACTIONAL True g of
                              (True, g', ev') \<Rightarrow>
                                (case run_sddb_killer env of
                                   Inl e \<Rightarrow>
                                     (Inl e, g',
                                      ev @ [elog LOG ''%s has been shutdown in Transactional mode''] @ ev')
                                 | Inr _ \<Rightarrow>
                                     (Inr (), g',
                                      ev @ [elog LOG ''%s has been shutdown in Transactional mode''] @ ev'))
                            | (False, g', ev') \<Rightarrow>
                                (Inl (ERROR, ''killer process (%d) could not be executed.''), g',
                                 ev @ [elog LOG ''%s has been shutdown in Transactional mode''] @ ev'))))))"

section \<open>Observations and sequences of operations\<close>

text \<open>The record that the table's look-up finds for a database, if any.\<close>

definition lookup_entry :: "oid \<Rightarrow> globals \<Rightarrow> sddbEntry option" where
  "lookup_entry d g = (case sddb_hash g of None \<Rightarrow> None | Some h \<Rightarrow> hash_find d h)"

text \<open>The number of records in the table, and the counter \<open>num_ht\<close> read as a C \<open>int\<close>.\<close>

definition live_records :: "globals \<Rightarrow> nat" where
  "live_records g = (case sddb_hash g of None \<Rightarrow> 0 | Some h \<Rightarrow> fcard (fmdom (entries h)))"

definition record_count :: "globals \<Rightarrow> int" where
  "record_count g = (case sddb g of None \<Rightarrow> 0 | Some s \<Rightarrow> sint (num_ht s))"

text \<open>
  The steps that processes take on the shared state, one after another. A step is a whole
  call of an entry point, or, for \<open>sddb_store_entry\<close>, its exclusive phase alone
  (\<open>StoreExclusive\<close>): the rest of a call whose probe found nothing and which other
  processes' steps have overtaken between the release of the shared lock and the taking of
  the exclusive one. On the empty registry every probe finds nothing, so in a sequence that
  starts there a \<open>StoreExclusive\<close> step can stand at any place. Every write to the table
  is made under the exclusive lock, so each order in which processes reach the table is a
  sequence of these steps; a step includes the update of the counter that follows it
  under \<open>elock\<close>.
\<close>

datatype store_op =
    Store oid mode bool
  | StoreExclusive oid mode bool
  | SetPid oid pid_t
  | SetRunning oid bool
  | Delete oid

fun apply_op :: "store_op \<Rightarrow> globals \<Rightarrow> globals" where
  "apply_op (Store d m r) g = fst (snd (sddb_store_entry d m r g))"
| "apply_op (StoreExclusive d m r) g =
     (case (sddb g, sddb_hash g) of
        (Some s, Some h) \<Rightarrow>
          (case sddb_store_entry_exclusive d m r s h of
             (b, s', h', ev) \<Rightarrow> g\<lparr>sddb := Some s', sddb_hash := Some h'\<rparr>)
      | _ \<Rightarrow> g)"
| "apply_op (SetPid d p) g = fst (snd (sddb_set_pid2entry d p g))"
| "apply_op (SetRunning d r) g = fst (snd (sddb_set_entry d r g))"
| "apply_op (Delete d) g = fst (sddb_delete_entry d g)"

fun run_ops :: "store_op list \<Rightarrow> globals \<Rightarrow> globals" where
  "run_ops [] g = g"
| "run_ops (x # xs) g = run_ops xs (apply_op x g)"

text \<open>
  The calls as the repository makes them: \<open>shutdown_normal\<close>, \<open>shutdown_abort\<close>,
  \<open>shutdown_immediate\<close> and \<open>shutdown_db_init\<close> store with \<open>is_running = false\<close> and
  \<open>shutdown_transactional\<close> stores \<open>TRANSACTIONAL\<close> with \<open>true\<close>; \<open>sddb_killer_main\<close>
  registers \<open>MyProcPid\<close>, the pid of a process, and sets \<open>is_running\<close> to \<open>false\<close> only;
  \<open>startup\<close> deletes.
\<close>

fun issued :: "store_op \<Rightarrow> bool" where
  "issued (Store d m r) = (r = (m = TRANSACTIONAL))"
| "issued (StoreExclusive d m r) = (r = (m = TRANSACTIONAL))"
| "issued (SetPid d p) = (p \<noteq> InvalidPid)"
| "issued (SetRunning d r) = (r = False)"
| "issued (Delete d) = True"

text \<open>
  Every deletion in the sequence meets a record for its key, and every exclusive phase
  that runs on its own still meets none.
\<close>

fun steps_in_place :: "store_op list \<Rightarrow> globals \<Rightarrow> bool" where
  "steps_in_place [] g = True"
| "steps_in_place (x # xs) g =
     ((case x of
         Delete d \<Rightarrow> lookup_entry d g \<noteq> None
       | StoreExclusive d m r \<Rightarrow> lookup_entry d g = None
       | _ \<Rightarrow> True)
      \<and> steps_in_place xs (apply_op x g))"

section \<open>Example states\<close>

text \<open>
  A registry with one record: database 5 in transactional shutdown, its watcher
  (process 4242) registered and polling.
\<close>

definition registry_one_watched :: globals where
  "registry_one_watched =
     \<lparr>sddb = Some \<lparr>num_ht = 1, num_bgw = 1\<rparr>,
      sddb_hash = Some \<lparr>entries = fmupd 5 \<lparr>key = 5, dbid = 5, mode = TRANSACTIONAL,
                                           is_running = True, pid = 4242\<rparr> fmempty,
                        capacity = 1024\<rparr>\<rparr>"

text \<open>A process that has not attached the shared memory: both pointers are \<open>NULL\<close>.\<close>

definition detached :: globals where
  "detached = \<lparr>sddb = None, sddb_hash = None\<rparr>"

text \<open>
  A registry with one record: database 16384 shut down in normal mode. The low byte of
  16384 is zero, so its key string is empty and its \<open>string_key\<close> is 0.
\<close>

definition registry_one_normal :: globals where
  "registry_one_normal =
     \<lparr>sddb = Some \<lparr>num_ht = 1, num_bgw = 0\<rparr>,
      sddb_hash = Some \<lparr>entries = fmupd 0 \<lparr>key = 0, dbid = 16384, mode = NORMAL,
                                               is_running = False, pid = InvalidPid\<rparr> fmempty,
                        capacity = 1024\<rparr>\<rparr>"

text \<open>
  A request by a privileged user for database 16384, with every query answered normally
  and no background worker slot free: \<open>RegisterDynamicBackgroundWorker\<close> returns
  \<open>false\<close>.
\<close>

definition env_no_worker_slot :: request_env where
  "env_no_worker_slot =
     \<lparr>is_allowed_role = True, dbid_ret = SPI_OK_SELECT, dbid_rows = [Some 16384],
      alter_ret = SPI_OK_UTILITY, registered = False, startup_status = BGWH_STOPPED,
      worker_pid = 0, launch_ret = SPI_OK_SELECT\<rparr>"

text \<open>
  The registry as \<open>shutdown_transactional\<close> leaves it for database 5, before the watcher
  has registered.
\<close>

definition registry_one_unwatched :: globals where
  "registry_one_unwatched =
     \<lparr>sddb = Some \<lparr>num_ht = 1, num_bgw = 0\<rparr>,
      sddb_hash = Some \<lparr>entries = fmupd 5 \<lparr>key = 5, dbid = 5, mode = TRANSACTIONAL,
                                           is_running = True, pid = InvalidPid\<rparr> fmempty,
                        capacity = 1024\<rparr>\<rparr>"

text \<open>A pass of the watcher's loop with no signal, in which three sessions are still busy.\<close>

definition busy_pass :: wakeup where
  "busy_pass =
     \<lparr>sigterm_at_loop_test = False, postmaster_death = False, sigterm_after_wait = False,
      spi_ret = SPI_OK_SELECT, spi_processed = 1, running_processes = Some 3\<rparr>"

section \<open>Facts about the store and the watcher\<close>

lemmas eval_defs =
  sddb_store_entry_def sddb_store_entry_probe_def sddb_store_entry_exclusive_def
  alloc_entry_def hash_enter_null_def hash_find_def put_entry_def hash_remove_def string_key_def
  sddb_delete_entry_def sddb_set_entry_def sddb_set_pid2entry_def sddb_find_entry_def
  sddb_get_pid_def sddb_shmem_startup_def InvalidPid_def InvalidOid_def
  lookup_entry_def live_records_def record_count_def
  fcard_finsert_if fcard_fempty fmdrop_fmupd Let_def

text \<open>Look-ups after a write through an entry pointer and after a removal.\<close>

lemma hash_find_put_entry:
  "hash_find d (put_entry d' e h) = (if string_key d' = string_key d then Some e else hash_find d h)"
  by (simp add: hash_find_def put_entry_def)

lemma hash_find_hash_remove:
  "hash_find d (hash_remove d' h) = (if string_key d' = string_key d then None else hash_find d h)"
  by (auto simp add: hash_find_def hash_remove_def)

lemma capacity_put_entry: "capacity (put_entry d e h) = capacity h"
  by (simp add: put_entry_def)

lemma capacity_hash_remove: "capacity (hash_remove d h) = capacity h"
  by (simp add: hash_remove_def)

lemma fcard_fmdom_0_lookup:
  assumes "fcard (fmdom m) = 0"
  shows "fmlookup m d = None"
proof -
  from assms have "fmdom m = {||}" by simp
  then have "d |\<notin>| fmdom m" by simp
  then show ?thesis by (rule fmdom_notD)
qed

text \<open>
  The exclusive phase of \<open>sddb_store_entry\<close>: on a key that the table holds, on a full
  table, and on a new key.
\<close>

lemma sddb_store_entry_exclusive_present:
  assumes "hash_find d h = Some e"
  shows "sddb_store_entry_exclusive d m r s h =
           (True, s\<lparr>num_ht := num_ht s + 1\<rparr>,
            put_entry d (e\<lparr>dbid := d, mode := m, is_running := r, pid := InvalidPid\<rparr>) h,
            [LWLockAcquire LW_EXCLUSIVE, SpinLockAcquire (mutex d), SpinLockRelease (mutex d),
             LWLockRelease, SpinLockAcquire elock, SpinLockRelease elock])"
  using assms
  by (simp add: sddb_store_entry_exclusive_def alloc_entry_def hash_enter_null_def hash_find_def)

lemma sddb_store_entry_exclusive_full:
  assumes "hash_find d h = None" and "capacity h \<le> fcard (fmdom (entries h))"
  shows "sddb_store_entry_exclusive d m r s h =
           (False, s, h,
            [LWLockAcquire LW_EXCLUSIVE, LWLockRelease,
             elog WARNING ''New entry was not created since hash table is full.''])"
  using assms
  by (simp add: sddb_store_entry_exclusive_def alloc_entry_def hash_enter_null_def hash_find_def)

lemma sddb_store_entry_exclusive_new:
  assumes "hash_find d h = None" and "fcard (fmdom (entries h)) < capacity h"
  shows "sddb_store_entry_exclusive d m r s h =
           (True, s\<lparr>num_ht := num_ht s + 1\<rparr>,
            put_entry d \<lparr>key = string_key d, dbid = d, mode = m, is_running = r,
                         pid = InvalidPid\<rparr> h,
            [LWLockAcquire LW_EXCLUSIVE, SpinLockInit (mutex d), SpinLockAcquire (mutex d),
             SpinLockRelease (mutex d), LWLockRelease, SpinLockAcquire elock,
             SpinLockRelease elock])"
  using assms
  by (simp add: sddb_store_entry_exclusive_def alloc_entry_def hash_enter_null_def hash_find_def
      put_entry_def Let_def)

text \<open>
  The three ways a call of \<open>sddb_store_entry\<close> on an attached registry can go when no
  other process steps in: the key is there at the probe, the table is full, or the record
  is created.
\<close>

lemma sddb_store_entry_present:
  assumes "sddb g = Some s" and "sddb_hash g = Some h" and "hash_find d h = Some e"
  shows "sddb_store_entry d m r g =
           (False, g, [LWLockAcquire LW_SHARED, LWLockRelease,
                       elog WARNING ''database %u is already stored.''])"
  using assms by (simp add: sddb_store_entry_def sddb_store_entry_probe_def)

lemma sddb_store_entry_full:
  assumes "sddb g = Some s" and "sddb_hash g = Some h" and "hash_find d h = None"
    and "capacity h \<le> fcard (fmdom (entries h))"
  shows "sddb_store_entry d m r g =
           (False, g, [LWLockAcquire LW_SHARED, LWLockRelease, LWLockAcquire LW_EXCLUSIVE,
                       LWLockRelease,
                       elog WARNING ''New entry was not created since hash table is full.''])"
  using assms
  by (simp add: sddb_store_entry_def sddb_store_entry_probe_def sddb_store_entry_exclusive_full)

lemma sddb_store_entry_new:
  assumes "sddb g = Some s" and "sddb_hash g = Some h" and "hash_find d h = None"
    and "fcard (fmdom (entries h)) < capacity h"
  shows "sddb_store_entry d m r g =
           (True,
            g\<lparr>sddb := Some (s\<lparr>num_ht := num_ht s + 1\<rparr>),
              sddb_hash := Some (put_entry d \<lparr>key = string_key d, dbid = d, mode = m,
                                              is_running = r, pid = InvalidPid\<rparr> h)\<rparr>,
            [LWLockAcquire LW_SHARED, LWLockRelease, LWLockAcquire LW_EXCLUSIVE,
             SpinLockInit (mutex d), SpinLockAcquire (mutex d), SpinLockRelease (mutex d),
             LWLockRelease, SpinLockAcquire elock, SpinLockRelease elock])"
  using assms
  by (simp add: sddb_store_entry_def sddb_store_entry_probe_def sddb_store_entry_exclusive_new)

text \<open>The setters and the deletion on an attached registry.\<close>

lemma sddb_set_entry_present:
  assumes "sddb g = Some s" and "sddb_hash g = Some h" and "hash_find d h = Some e"
  shows "sddb_set_entry d r g =
           (True, g\<lparr>sddb_hash := Some (put_entry d (e\<lparr>is_running := r\<rparr>) h)\<rparr>,
            [LWLockAcquire LW_EXCLUSIVE, SpinLockAcquire (mutex d), SpinLockRelease (mutex d),
             LWLockRelease])"
  using assms by (simp add: sddb_set_entry_def)

lemma sddb_set_entry_absent:
  assumes "sddb g = Some s" and "sddb_hash g = Some h" and "hash_find d h = None"
  shows "sddb_set_entry d r g = (False, g, [LWLockAcquire LW_EXCLUSIVE, LWLockRelease])"
  using assms by (simp add: sddb_set_entry_def)

lemma sddb_set_pid2entry_present:
  assumes "sddb g = Some s" and "sddb_hash g = Some h" and "hash_find d h = Some e"
  shows "sddb_set_pid2entry d p g =
           (True, g\<lparr>sddb_hash := Some (put_entry d (e\<lparr>pid := p\<rparr>) h)\<rparr>,
            [LWLockAcquire LW_EXCLUSIVE, SpinLockAcquire (mutex d), SpinLockRelease (mutex d),
             LWLockRelease])"
  using assms by (simp add: sddb_set_pid2entry_def)

lemma sddb_set_pid2entry_absent:
  assumes "sddb g = Some s" and "sddb_hash g = Some h" and "hash_find d h = None"
  shows "sddb_set_pid2entry d p g = (False, g, [LWLockAcquire LW_EXCLUSIVE, LWLockRelease])"
  using assms by (simp add: sddb_set_pid2entry_def)

lemma sddb_delete_entry_attached:
  assumes "sddb g = Some s" and "sddb_hash g = Some h"
  shows "fst (sddb_delete_entry d g) =
           g\<lparr>sddb := Some (s\<lparr>num_ht := num_ht s - 1\<rparr>), sddb_hash := Some (hash_remove d h)\<rparr>"
  using assms by (simp add: sddb_delete_entry_def)

text \<open>The exclusive phase as a step of its own.\<close>

lemma apply_op_StoreExclusive_attached:
  assumes "sddb g = Some s" and "sddb_hash g = Some h"
  shows "apply_op (StoreExclusive d m r) g =
           g\<lparr>sddb := Some (fst (snd (sddb_store_entry_exclusive d m r s h))),
             sddb_hash := Some (fst (snd (snd (sddb_store_entry_exclusive d m r s h))))\<rparr>"
  using assms by (simp add: split_beta)

text \<open>A call on a detached registry changes nothing.\<close>

lemma apply_op_detached:
  assumes "sddb g = None \<or> sddb_hash g = None"
  shows "apply_op x g = g"
  using assms
  by (cases x)
    (auto simp add: sddb_store_entry_def sddb_set_entry_def sddb_set_pid2entry_def
      sddb_delete_entry_def split: option.splits)

text \<open>A store that returns \<open>true\<close> has created the record with the given mode and flag.\<close>

lemma sddb_store_entry_True:
  assumes "sddb_store_entry d m r g = (True, g', ev)"
  shows "lookup_entry d g'
           = Some \<lparr>key = string_key d, dbid = d, mode = m, is_running = r, pid = InvalidPid\<rparr>"
proof (cases "sddb g")
  case None
  with assms show ?thesis by (simp add: sddb_store_entry_def)
next
  case s: (Some s)
  show ?thesis
  proof (cases "sddb_hash g")
    case None
    with assms s show ?thesis by (simp add: sddb_store_entry_def)
  next
    case h: (Some h)
    show ?thesis
    proof (cases "hash_find d h")
      case (Some e)
      with assms s h show ?thesis by (simp add: sddb_store_entry_present)
    next
      case None
      show ?thesis
      proof (cases "capacity h \<le> fcard (fmdom (entries h))")
        case True
        with assms s h None show ?thesis by (simp add: sddb_store_entry_full)
      next
        case False
        with assms s h None show ?thesis
          by (auto simp add: sddb_store_entry_new lookup_entry_def hash_find_put_entry)
      qed
    qed
  qed
qed

text \<open>
  A record that a look-up finds after the exclusive phase was there before, or is the one
  the phase wrote.
\<close>

lemma sddb_store_entry_exclusive_lookup:
  assumes "hash_find d' (fst (snd (snd (sddb_store_entry_exclusive d m r s h)))) = Some e"
  shows "hash_find d' h = Some e
       \<or> (dbid e = d \<and> mode e = m \<and> is_running e = r \<and> pid e = InvalidPid)"
proof (cases "hash_find d h")
  case (Some e')
  with assms show ?thesis
    by (auto simp add: sddb_store_entry_exclusive_present hash_find_put_entry split: if_splits)
next
  case None
  show ?thesis
  proof (cases "capacity h \<le> fcard (fmdom (entries h))")
    case True
    with None assms show ?thesis by (simp add: sddb_store_entry_exclusive_full)
  next
    case False
    with None assms show ?thesis
      by (auto simp add: sddb_store_entry_exclusive_new hash_find_put_entry split: if_splits)
  qed
qed

text \<open>
  The calls the repository makes keep this property of the table: a record that is
  marked running and has no pid is a transactional one.
\<close>

lemma apply_op_unregistered_running:
  assumes inv: "\<And>d e. lookup_entry d g = Some e \<Longrightarrow> pid e = InvalidPid \<Longrightarrow> is_running e
                  \<Longrightarrow> mode e = TRANSACTIONAL"
    and x: "issued x"
    and e: "lookup_entry d (apply_op x g) = Some e" "pid e = InvalidPid" "is_running e"
  shows "mode e = TRANSACTIONAL"
proof (cases "sddb g = None \<or> sddb_hash g = None")
  case True
  then have "apply_op x g = g" by (rule apply_op_detached)
  with e inv show ?thesis by simp
next
  case False
  then obtain s h where s: "sddb g = Some s" and h: "sddb_hash g = Some h" by auto
  have old: "mode e = TRANSACTIONAL" if "hash_find d h = Some e"
    using inv [of d e] that h e by (simp add: lookup_entry_def)
  show ?thesis
  proof (cases x)
    case (Store d' m r)
    show ?thesis
    proof (cases "hash_find d' h")
      case (Some e')
      with s h Store e have "hash_find d h = Some e"
        by (simp add: sddb_store_entry_present lookup_entry_def)
      then show ?thesis by (rule old)
    next
      case None
      show ?thesis
      proof (cases "capacity h \<le> fcard (fmdom (entries h))")
        case True
        with s h Store e None have "hash_find d h = Some e"
          by (simp add: sddb_store_entry_full lookup_entry_def)
        then show ?thesis by (rule old)
      next
        case False
        with s h Store None have
          "lookup_entry d (apply_op x g)
             = (if string_key d' = string_key d
                then Some \<lparr>key = string_key d', dbid = d', mode = m, is_running = r,
                            pid = InvalidPid\<rparr>
                else hash_find d h)"
          by (simp add: sddb_store_entry_new lookup_entry_def hash_find_put_entry)
        with e x Store old show ?thesis by (auto split: if_splits)
      qed
    qed
  next
    case (StoreExclusive d' m r)
    with s h e have "hash_find d (fst (snd (snd (sddb_store_entry_exclusive d' m r s h)))) = Some e"
      by (simp add: apply_op_StoreExclusive_attached lookup_entry_def del: apply_op.simps)
    from sddb_store_entry_exclusive_lookup [OF this] x StoreExclusive e old
    show ?thesis by auto
  next
    case (SetPid d' p)
    show ?thesis
    proof (cases "hash_find d' h")
      case (Some e')
      with s h SetPid have
        "lookup_entry d (apply_op x g)
           = (if string_key d' = string_key d then Some (e'\<lparr>pid := p\<rparr>) else hash_find d h)"
        by (simp add: sddb_set_pid2entry_present lookup_entry_def hash_find_put_entry)
      with e x SetPid old show ?thesis by (auto split: if_splits)
    next
      case None
      with s h SetPid e have "hash_find d h = Some e"
        by (simp add: sddb_set_pid2entry_absent lookup_entry_def)
      then show ?thesis by (rule old)
    qed
  next
    case (SetRunning d' r)
    show ?thesis
    proof (cases "hash_find d' h")
      case (Some e')
      with s h SetRunning have
        "lookup_entry d (apply_op x g)
           = (if string_key d' = string_key d then Some (e'\<lparr>is_running := r\<rparr>)
              else hash_find d h)"
        by (simp add: sddb_set_entry_present lookup_entry_def hash_find_put_entry)
      with e x SetRunning old show ?thesis by (auto split: if_splits)
    next
      case None
      with s h SetRunning e have "hash_find d h = Some e"
        by (simp add: sddb_set_entry_absent lookup_entry_def)
      then show ?thesis by (rule old)
    qed
  next
    case (Delete d')
    with s h have
      "lookup_entry d (apply_op x g)
         = (if string_key d' = string_key d then None else hash_find d h)"
      by (simp add: sddb_delete_entry_attached lookup_entry_def hash_find_hash_remove)
    with e old show ?thesis by (auto split: if_splits)
  qed
qed

lemma run_ops_unregistered_running:
  assumes "list_all issued xs"
    and "\<And>d e. lookup_entry d g = Some e \<Longrightarrow> pid e = InvalidPid \<Longrightarrow> is_running e
           \<Longrightarrow> mode e = TRANSACTIONAL"
    and "lookup_entry d (run_ops xs g) = Some e" and "pid e = InvalidPid" and "is_running e"
  shows "mode e = TRANSACTIONAL"
  using assms
proof (induction xs arbitrary: g)
  case Nil
  then show ?case by simp
next
  case (Cons x xs)
  from Cons.prems(1) have x: "issued x" and xs: "list_all issued xs" by simp_all
  have step: "mode e' = TRANSACTIONAL"
    if "lookup_entry d' (apply_op x g) = Some e'" "pid e' = InvalidPid" "is_running e'"
    for d' e'
    using Cons.prems(2) x that by (rule apply_op_unregistered_running)
  from Cons.prems(3) have "lookup_entry d (run_ops xs (apply_op x g)) = Some e" by simp
  from Cons.IH [OF xs step this Cons.prems(4,5)] show ?case .
qed

text \<open>
  What \<open>sddb_check_ht\<close> answers when the pointer \<open>sddb\<close> is attached and \<open>num_ht\<close> is the
  number of live records.
\<close>

lemma sddb_check_ht_running:
  assumes "sddb g = Some s" and "record_count g = int (live_records g)"
  shows "\<exists>ev. sddb_check_ht my g = Some ((\<exists>e. lookup_entry my g = Some e \<and> is_running e), ev)
           \<and> (\<forall>l t. elog l t \<notin> set ev)"
proof (cases "sddb_hash g")
  case None
  with assms show ?thesis
    by (auto simp add: sddb_check_ht_def sddb_find_entry_def lookup_entry_def)
next
  case (Some h)
  show ?thesis
  proof (cases "num_ht s = 0")
    case True
    with assms Some have "fcard (fmdom (entries h)) = 0"
      by (simp add: record_count_def live_records_def)
    then have "fmlookup (entries h) (string_key my) = None" by (rule fcard_fmdom_0_lookup)
    with True assms Some show ?thesis
      by (simp add: sddb_check_ht_def lookup_entry_def hash_find_def)
  next
    case False
    with assms Some show ?thesis
      by (auto simp add: sddb_check_ht_def sddb_find_entry_def lookup_entry_def
          Let_def split: option.splits)
  qed
qed

text \<open>
  Every run of the watcher's loop that ends in \<open>proc_exit(0)\<close> has decremented
  \<open>num_bgw\<close> once, and has either left the table alone (the stop signal seen after the
  wait, or a drained database for which the look-up finds no record) or cleared
  \<open>is_running\<close> of the record found for its database (the database drained).
\<close>

lemma killer_loop_exit_success:
  assumes "killer_loop d ws g = (proc_exit 0, g', ev)" and "sddb g = Some s"
  shows "sddb g' = Some (s\<lparr>num_bgw := num_bgw s - 1\<rparr>)
       \<and> (sddb_hash g' = sddb_hash g
          \<or> (\<exists>h e. sddb_hash g = Some h \<and> hash_find d h = Some e
                \<and> sddb_hash g' = Some (put_entry d (e\<lparr>is_running := False\<rparr>) h)))"
  using assms
proof (induction ws)
  case Nil
  then show ?case by simp
next
  case (Cons w ws)
  show ?case
  proof (cases "sigterm_at_loop_test w \<or> postmaster_death w")
    case True
    with Cons.prems show ?thesis by (auto split: if_splits)
  next
    case quiet: False
    show ?thesis
    proof (cases "sigterm_after_wait w")
      case True
      with quiet Cons.prems show ?thesis by (auto simp add: dec_num_bgw_def)
    next
      case awake: False
      show ?thesis
      proof (cases "spi_ret w \<noteq> SPI_OK_SELECT \<or> spi_processed w \<noteq> 1 \<or> running_processes w = None")
        case True
        with quiet awake Cons.prems show ?thesis by (auto split: if_splits option.splits)
      next
        case False
        then obtain n where n: "running_processes w = Some n" and ok: "spi_ret w = SPI_OK_SELECT"
          "spi_processed w = 1" by auto
        show ?thesis
        proof (cases "n = 0")
          case False
          with quiet awake n ok Cons.prems have "killer_loop d ws g = (proc_exit 0, g', ev)" by simp
          from Cons.IH [OF this Cons.prems(2)] show ?thesis .
        next
          case True
          show ?thesis
          proof (cases "sddb_hash g")
            case None
            with True quiet awake n ok Cons.prems show ?thesis
              by (auto simp add: sddb_set_entry_def dec_num_bgw_def)
          next
            case (Some h)
            show ?thesis
            proof (cases "hash_find d h")
              case None
              with Some True quiet awake n ok Cons.prems show ?thesis
                by (auto simp add: sddb_set_entry_absent dec_num_bgw_def)
            next
              case e: (Some e)
              with Some True quiet awake n ok Cons.prems show ?thesis
                by (auto simp add: sddb_set_entry_present dec_num_bgw_def)
            qed
          qed
        qed
      qed
    qed
  qed
qed

text \<open>
  A transactional shutdown request that passes its checks, inserts its record and then
  fails to spawn the watcher ends with the error of the spawn and leaves the shared
  state as the insert produced it.
\<close>

lemma shutdown_transactional_spawn_failure:
  assumes "check_workenv g = Inr ()" and "is_allowed_role env" and "check_dbname dbname"
    and "get_dbid (dbid_ret env) (dbid_rows env) = Inr d"
    and "fst (sddb_find_entry d False g) = False"
    and "do_alter_database (alter_ret env) = Inr True"
    and "sddb_store_entry d TRANSACTIONAL True g = (True, g', ev')"
    and "run_sddb_killer env = Inl err"
  shows "fst (shutdown_transactional dbname env g) = Inl err
       \<and> fst (snd (shutdown_transactional dbname env g)) = g'
       \<and> lookup_entry d g'
           = Some \<lparr>key = string_key d, dbid = d, mode = TRANSACTIONAL, is_running = True,
                   pid = InvalidPid\<rparr>"
proof -
  obtain ev where f: "sddb_find_entry d False g = (False, ev)"
    using assms(5) by (cases "sddb_find_entry d False g") simp
  have "shutdown_transactional dbname env g
          = (Inl err, g', ev @ [elog LOG ''%s has been shutdown in Transactional mode''] @ ev')"
    using assms f by (simp add: shutdown_transactional_def)
  moreover note sddb_store_entry_True [OF assms(7)]
  ultimately show ?thesis by simp
qed

text \<open>
  The counter and the table stay in step, \<open>num_ht\<close> being the number of live records,
  over every step except a deletion that meets no record and an exclusive phase that
  meets one. The counter is a 32-bit \<open>int\<close>: the capacity is taken below \<open>2^31\<close> (the
  configuration allows at most 1048576 records).
\<close>

lemma sint_succ:
  fixes x :: "32 word"
  assumes "sint x = int n" and "n < 2147483647"
  shows "sint (x + 1) = int n + 1"
proof -
  have "sint (x + 1) = signed_take_bit 31 (sint x + 1)"
    by (simp add: sint_word_ariths)
  also have "\<dots> = sint x + 1"
    using assms by (intro signed_take_bit_int_eq_self) simp_all
  finally show ?thesis using assms by simp
qed

lemma sint_pred:
  fixes x :: "32 word"
  assumes "sint x = int n" and "0 < n"
  shows "sint (x - 1) = int n - 1"
proof -
  have "sint x < 2147483648" using sint_lt [of x] by simp
  have "sint (x - 1) = signed_take_bit 31 (sint x - 1)"
    by (simp add: sint_word_ariths)
  also have "\<dots> = sint x - 1"
    using assms \<open>sint x < 2147483648\<close> by (intro signed_take_bit_int_eq_self) simp_all
  finally show ?thesis using assms by simp
qed

lemma record_count_new_record:
  assumes n: "sint (num_ht s) = int (fcard (fmdom (entries h)))"
    and room: "fcard (fmdom (entries h)) < capacity h" and cap: "capacity h < 2147483648"
    and absent: "hash_find d h = None"
  shows "sint (num_ht s + 1) = int (fcard (fmdom (entries (put_entry d e h))))"
proof -
  from room cap have "fcard (fmdom (entries h)) < 2147483647" by simp
  from sint_succ [OF n this] have "sint (num_ht s + 1) = int (fcard (fmdom (entries h))) + 1" .
  moreover from absent have "string_key d |\<notin>| fmdom (entries h)"
    by (simp add: hash_find_def fmdom_notI)
  then have "fcard (finsert (string_key d) (fmdom (entries h))) = Suc (fcard (fmdom (entries h)))"
    by (simp add: fcard_finsert_disjoint)
  ultimately show ?thesis by (simp add: put_entry_def)
qed

lemma fmdom_put_entry_present:
  assumes "hash_find d h = Some e"
  shows "fmdom (entries (put_entry d e' h)) = fmdom (entries h)"
proof -
  from assms have "string_key d |\<in>| fmdom (entries h)" by (simp add: hash_find_def fmdomI)
  then have "finsert (string_key d) (fmdom (entries h)) = fmdom (entries h)" by auto
  then show ?thesis by (simp add: put_entry_def)
qed

lemma apply_op_record_count:
  assumes inv: "record_count g = int (live_records g)"
    and att: "sddb g = Some s" "sddb_hash g = Some h"
    and cap: "capacity h < 2147483648"
    and x: "\<forall>d. x = Delete d \<longrightarrow> lookup_entry d g \<noteq> None"
      "\<forall>d m r. x = StoreExclusive d m r \<longrightarrow> lookup_entry d g = None"
  shows "record_count (apply_op x g) = int (live_records (apply_op x g))"
proof -
  from inv att have n: "sint (num_ht s) = int (fcard (fmdom (entries h)))"
    by (simp add: record_count_def live_records_def)
  show ?thesis
  proof (cases x)
    case (Store d m r)
    show ?thesis
    proof (cases "hash_find d h")
      case (Some e)
      with att Store inv show ?thesis by (simp add: sddb_store_entry_present)
    next
      case None
      show ?thesis
      proof (cases "capacity h \<le> fcard (fmdom (entries h))")
        case True
        with None att Store inv show ?thesis by (simp add: sddb_store_entry_full)
      next
        case False
        then have "fcard (fmdom (entries h)) < capacity h" by simp
        from record_count_new_record [OF n this cap None] None att Store False
        show ?thesis
          by (simp add: sddb_store_entry_new record_count_def live_records_def)
      qed
    qed
  next
    case (StoreExclusive d m r)
    with x(2) att have None: "hash_find d h = None" by (simp add: lookup_entry_def)
    show ?thesis
    proof (cases "capacity h \<le> fcard (fmdom (entries h))")
      case True
      with None att StoreExclusive n show ?thesis
        by (simp add: sddb_store_entry_exclusive_full record_count_def live_records_def)
    next
      case False
      then have "fcard (fmdom (entries h)) < capacity h" by simp
      from record_count_new_record [OF n this cap None] None att StoreExclusive False
      show ?thesis
        by (simp add: sddb_store_entry_exclusive_new record_count_def live_records_def)
    qed
  next
    case (SetPid d p)
    show ?thesis
    proof (cases "hash_find d h")
      case (Some e)
      with att SetPid n fmdom_put_entry_present [OF Some] show ?thesis
        by (simp add: sddb_set_pid2entry_present record_count_def live_records_def)
    next
      case None
      with att SetPid inv show ?thesis by (simp add: sddb_set_pid2entry_absent)
    qed
  next
    case (SetRunning d r)
    show ?thesis
    proof (cases "hash_find d h")
      case (Some e)
      with att SetRunning n fmdom_put_entry_present [OF Some] show ?thesis
        by (simp add: sddb_set_entry_present record_count_def live_records_def)
    next
      case None
      with att SetRunning inv show ?thesis by (simp add: sddb_set_entry_absent)
    qed
  next
    case (Delete d)
    with x(1) att obtain e where e: "hash_find d h = Some e"
      by (auto simp add: lookup_entry_def)
    then have mem: "string_key d |\<in>| fmdom (entries h)" by (simp add: hash_find_def fmdomI)
    then have pos: "0 < fcard (fmdom (entries h))"
      by (metis fcard_fempty fcard_0_eq fempty_iff gr0I)
    from sint_pred [OF n pos] have "sint (num_ht s - 1) = int (fcard (fmdom (entries h))) - 1" .
    moreover from mem have
      "fcard (fmdom (entries h) |-| {|string_key d|}) = fcard (fmdom (entries h)) - 1"
      by (simp add: fcard_fminus_fsingleton)
    ultimately show ?thesis using att Delete pos
      by (simp add: sddb_delete_entry_attached hash_remove_def record_count_def live_records_def)
  qed
qed

lemma apply_op_attached:
  assumes "sddb g = Some s" and "sddb_hash g = Some h"
  shows "\<exists>s' h'. sddb (apply_op x g) = Some s' \<and> sddb_hash (apply_op x g) = Some h'
           \<and> capacity h' = capacity h"
proof (cases x)
  case (Store d m r)
  with assms show ?thesis
    by (cases "hash_find d h"; cases "capacity h \<le> fcard (fmdom (entries h))")
      (simp_all add: sddb_store_entry_present sddb_store_entry_full sddb_store_entry_new
        capacity_put_entry)
next
  case (StoreExclusive d m r)
  with assms show ?thesis
    by (cases "hash_find d h"; cases "capacity h \<le> fcard (fmdom (entries h))")
      (simp_all add: sddb_store_entry_exclusive_present sddb_store_entry_exclusive_full
        sddb_store_entry_exclusive_new capacity_put_entry)
next
  case (SetPid d p)
  with assms show ?thesis
    by (cases "hash_find d h")
      (simp_all add: sddb_set_pid2entry_present sddb_set_pid2entry_absent capacity_put_entry)
next
  case (SetRunning d r)
  with assms show ?thesis
    by (cases "hash_find d h")
      (simp_all add: sddb_set_entry_present sddb_set_entry_absent capacity_put_entry)
next
  case (Delete d)
  with assms show ?thesis by (simp add: sddb_delete_entry_attached capacity_hash_remove)
qed

lemma run_ops_record_count:
  assumes "steps_in_place xs g"
    and "record_count g = int (live_records g)"
    and "sddb g = Some s" and "sddb_hash g = Some h" and "capacity h < 2147483648"
  shows "record_count (run_ops xs g) = int (live_records (run_ops xs g))"
  using assms
proof (induction xs arbitrary: g s h)
  case Nil
  then show ?case by simp
next
  case (Cons x xs)
  from Cons.prems(1) have x: "\<forall>d. x = Delete d \<longrightarrow> lookup_entry d g \<noteq> None"
      "\<forall>d m r. x = StoreExclusive d m r \<longrightarrow> lookup_entry d g = None"
    and xs: "steps_in_place xs (apply_op x g)"
    by (auto split: store_op.splits)
  from apply_op_record_count [OF Cons.prems(2,3,4,5) x]
  have inv: "record_count (apply_op x g) = int (live_records (apply_op x g))" .
  from apply_op_attached [OF Cons.prems(3,4)] obtain s' h' where
    att: "sddb (apply_op x g) = Some s'" "sddb_hash (apply_op x g) = Some h'"
      "capacity h' = capacity h"
    by blast
  from att(3) Cons.prems(5) have "capacity h' < 2147483648" by simp
  from Cons.IH [OF xs inv att(1,2) this] show ?case by simp
qed

lemma record_count_from_startup:
  assumes "steps_in_place xs (sddb_shmem_startup n)" and "n < 2147483648"
  shows "record_count (run_ops xs (sddb_shmem_startup n))
           = int (live_records (run_ops xs (sddb_shmem_startup n)))"
proof -
  have "record_count (sddb_shmem_startup n) = int (live_records (sddb_shmem_startup n))"
    by (simp add: record_count_def live_records_def sddb_shmem_startup_def fcard_fempty)
  moreover have "sddb (sddb_shmem_startup n) = Some \<lparr>num_ht = 0, num_bgw = 0\<rparr>"
    and "sddb_hash (sddb_shmem_startup n) = Some \<lparr>entries = fmempty, capacity = n\<rparr>"
    by (simp_all add: sddb_shmem_startup_def)
  ultimately show ?thesis using assms
    by (intro run_ops_record_count [where s = "\<lparr>num_ht = 0, num_bgw = 0\<rparr>"
          and h = "\<lparr>entries = fmempty, capacity = n\<rparr>"]) simp_all
qed

text \<open>
  The key, \<open>dbid\<close> and mode of the record found for a database stay as they are over
  every step other than a deletion of its key and an exclusive phase that runs on its
  key on its own.
\<close>

lemma apply_op_keeps_mode:
  assumes "sddb g = Some s" and "sddb_hash g = Some h" and "hash_find d h = Some e"
    and "\<forall>d'. string_key d' = string_key d \<longrightarrow>
           x \<noteq> Delete d' \<and> (\<forall>m r. x \<noteq> StoreExclusive d' m r)"
  shows "\<exists>s' h' e'. sddb (apply_op x g) = Some s' \<and> sddb_hash (apply_op x g) = Some h'
           \<and> hash_find d h' = Some e'
           \<and> key e' = key e \<and> dbid e' = dbid e \<and> mode e' = mode e"
proof (cases x)
  case (Store d' m r)
  show ?thesis
  proof (cases "hash_find d' h")
    case (Some e')
    with assms Store show ?thesis by (simp add: sddb_store_entry_present)
  next
    case None
    then have ne: "string_key d' \<noteq> string_key d" using assms by (auto simp add: hash_find_def)
    show ?thesis
    proof (cases "capacity h \<le> fcard (fmdom (entries h))")
      case True
      with None assms Store show ?thesis by (simp add: sddb_store_entry_full)
    next
      case False
      with None assms Store ne show ?thesis
        by (simp add: sddb_store_entry_new hash_find_put_entry)
    qed
  qed
next
  case (StoreExclusive d' m r)
  with assms(4) have ne: "string_key d' \<noteq> string_key d" by auto
  show ?thesis
  proof (cases "hash_find d' h")
    case (Some e')
    with assms StoreExclusive ne show ?thesis
      by (simp add: sddb_store_entry_exclusive_present hash_find_put_entry)
  next
    case None
    show ?thesis
    proof (cases "capacity h \<le> fcard (fmdom (entries h))")
      case True
      with None assms StoreExclusive show ?thesis
        by (simp add: sddb_store_entry_exclusive_full)
    next
      case False
      with None assms StoreExclusive ne show ?thesis
        by (simp add: sddb_store_entry_exclusive_new hash_find_put_entry)
    qed
  qed
next
  case (SetPid d' p)
  show ?thesis
  proof (cases "hash_find d' h")
    case (Some e')
    have "e' = e" if "string_key d' = string_key d"
      using that Some assms(3) by (simp add: hash_find_def)
    with Some assms SetPid show ?thesis
      by (auto simp add: sddb_set_pid2entry_present hash_find_put_entry)
  next
    case None
    with assms SetPid show ?thesis by (simp add: sddb_set_pid2entry_absent)
  qed
next
  case (SetRunning d' r)
  show ?thesis
  proof (cases "hash_find d' h")
    case (Some e')
    have "e' = e" if "string_key d' = string_key d"
      using that Some assms(3) by (simp add: hash_find_def)
    with Some assms SetRunning show ?thesis
      by (auto simp add: sddb_set_entry_present hash_find_put_entry)
  next
    case None
    with assms SetRunning show ?thesis by (simp add: sddb_set_entry_absent)
  qed
next
  case (Delete d')
  with assms(4) have "string_key d' \<noteq> string_key d" by auto
  with assms Delete show ?thesis
    by (simp add: sddb_delete_entry_attached hash_find_hash_remove)
qed

lemma run_ops_keeps_mode:
  assumes "\<forall>x \<in> set xs. \<forall>d'. string_key d' = string_key d \<longrightarrow>
             x \<noteq> Delete d' \<and> (\<forall>m r. x \<noteq> StoreExclusive d' m r)"
    and "sddb g = Some s" and "sddb_hash g = Some h" and "hash_find d h = Some e"
  shows "\<exists>e'. lookup_entry d (run_ops xs g) = Some e'
           \<and> key e' = key e \<and> dbid e' = dbid e \<and> mode e' = mode e"
  using assms
proof (induction xs arbitrary: g s h e)
  case Nil
  then show ?case by (simp add: lookup_entry_def)
next
  case (Cons x xs)
  from Cons.prems(1) have x: "\<forall>d'. string_key d' = string_key d \<longrightarrow>
           x \<noteq> Delete d' \<and> (\<forall>m r. x \<noteq> StoreExclusive d' m r)"
    and xs: "\<forall>x \<in> set xs. \<forall>d'. string_key d' = string_key d \<longrightarrow>
             x \<noteq> Delete d' \<and> (\<forall>m r. x \<noteq> StoreExclusive d' m r)"
    by simp_all
  from apply_op_keeps_mode [OF Cons.prems(2,3,4) x]
  obtain s' h' e' where step: "sddb (apply_op x g) = Some s'" "sddb_hash (apply_op x g) = Some h'"
      "hash_find d h' = Some e'" "key e' = key e" "dbid e' = dbid e" "mode e' = mode e"
    by blast
  from Cons.IH [OF xs step(1,2,3)] step(4,5,6) show ?case by simp
qed

section \<open>The claims\<close>

text \<open>
  C1. The claim: the exclusive-mode phase of \<open>sddb_store_entry\<close> (\<open>alloc_entry\<close> and the
  field store) re-validates that the key is absent, so that running it on a state that
  already holds the key changes neither the registry nor \<open>num_ht\<close>.

  The code at such a state: a probe for database 5 on the empty table finds nothing;
  before the exclusive lock is taken another process (the bootstrap worker) stores
  database 5 in mode \<open>INIT\<close>; the exclusive phase then gets the existing entry from
  \<open>alloc_entry\<close>, overwrites its mode and running flag, counts it a second time
  (\<open>num_ht\<close> goes from 1 to 2 with one record in the table) and returns \<open>true\<close>.
\<close>

theorem sddb_store_entry_exclusive_overwrites:
  "fst (sddb_store_entry_probe 5 \<lparr>entries = fmempty, capacity = 1024\<rparr>) = None
   \<and> fst (snd (sddb_store_entry 5 INIT False (sddb_shmem_startup 1024)))
       = \<lparr>sddb = Some \<lparr>num_ht = 1, num_bgw = 0\<rparr>,
          sddb_hash = Some \<lparr>entries = fmupd 5 \<lparr>key = 5, dbid = 5, mode = INIT,
                                               is_running = False, pid = InvalidPid\<rparr> fmempty,
                            capacity = 1024\<rparr>\<rparr>
   \<and> sddb_store_entry_exclusive 5 TRANSACTIONAL True \<lparr>num_ht = 1, num_bgw = 0\<rparr>
        \<lparr>entries = fmupd 5 \<lparr>key = 5, dbid = 5, mode = INIT, is_running = False, pid = InvalidPid\<rparr>
                     fmempty,
         capacity = 1024\<rparr>
       = (True, \<lparr>num_ht = 2, num_bgw = 0\<rparr>,
          \<lparr>entries = fmupd 5 \<lparr>key = 5, dbid = 5, mode = TRANSACTIONAL, is_running = True,
                               pid = InvalidPid\<rparr> fmempty,
           capacity = 1024\<rparr>,
          [LWLockAcquire LW_EXCLUSIVE, SpinLockAcquire (mutex 5), SpinLockRelease (mutex 5),
           LWLockRelease, SpinLockAcquire elock, SpinLockRelease elock])"
  by (simp add: eval_defs)

text \<open>
  C2. The claim: \<open>num_ht\<close> equals the number of live records in every state reached from
  the empty registry by calls of \<open>sddb_store_entry\<close> and \<open>sddb_delete_entry\<close>.

  The code on the sequence "store database 1, delete database 2": the delete finds
  nothing to remove and still decrements, so \<open>num_ht\<close> is 0 with one live record, and
  the fast path of \<open>sddb_find_entry\<close> then reports database 1 as absent.
\<close>

theorem record_count_drifts_after_delete:
  "record_count (run_ops [Store 1 NORMAL False, Delete 2] (sddb_shmem_startup 1024)) = 0
   \<and> live_records (run_ops [Store 1 NORMAL False, Delete 2] (sddb_shmem_startup 1024)) = 1
   \<and> lookup_entry 1 (run_ops [Store 1 NORMAL False, Delete 2] (sddb_shmem_startup 1024))
       = Some \<lparr>key = 1, dbid = 1, mode = NORMAL, is_running = False, pid = InvalidPid\<rparr>
   \<and> fst (sddb_find_entry 1 False
            (run_ops [Store 1 NORMAL False, Delete 2] (sddb_shmem_startup 1024))) = False"
  by (simp add: eval_defs)

text \<open>
  C3. The claim: \<open>sddb_delete_entry\<close> on an absent key is a no-op that leaves the
  registry, \<open>num_ht\<close> and all records unchanged.

  The code on a registry that holds database 3 only, asked to delete database 7: the
  table is unchanged and \<open>num_ht\<close> goes from 1 to 0. The condition of the \<open>Assert\<close>
  holds in this state, so the outcome is the same in a build with assertion checking.
\<close>

theorem sddb_delete_entry_absent_decrements:
  "sddb_delete_entry 7
     \<lparr>sddb = Some \<lparr>num_ht = 1, num_bgw = 0\<rparr>,
      sddb_hash = Some \<lparr>entries = fmupd 3 \<lparr>key = 3, dbid = 3, mode = ABORT, is_running = False,
                                           pid = InvalidPid\<rparr> fmempty,
                        capacity = 1024\<rparr>\<rparr>
   = (\<lparr>sddb = Some \<lparr>num_ht = 0, num_bgw = 0\<rparr>,
       sddb_hash = Some \<lparr>entries = fmupd 3 \<lparr>key = 3, dbid = 3, mode = ABORT, is_running = False,
                                            pid = InvalidPid\<rparr> fmempty,
                         capacity = 1024\<rparr>\<rparr>,
      [LWLockAcquire LW_EXCLUSIVE, LWLockRelease, SpinLockAcquire elock, Assert True,
       SpinLockRelease elock])"
  by (simp add: eval_defs)

text \<open>
  C4. The claim: when a transactional shutdown request has inserted its record and the
  spawn of the watcher then fails, the request fails and the inserted record is removed,
  so that no record stays behind with \<open>is_running = true\<close> and no watcher.

  The code on a request for database 16384 on the empty registry, with no background
  worker slot free: the request ends with the error of \<open>sddb_killer_launch\<close>, and the
  registry keeps the record, running and without a pid, counted in \<open>num_ht\<close>. A second
  request, made when a slot is free again, is turned away with the warning that the
  database is already shut down and starts no watcher, and sessions of the database are
  warned of a kill that no process is there to carry out.
\<close>

theorem shutdown_transactional_leaves_record:
  "shutdown_transactional ''app_db'' env_no_worker_slot (sddb_shmem_startup 1024)
     = (Inl (ERROR, ''This function could not be executed because of the background worker failure.''),
        \<lparr>sddb = Some \<lparr>num_ht = 1, num_bgw = 0\<rparr>,
         sddb_hash = Some \<lparr>entries = fmupd 0 \<lparr>key = 0, dbid = 16384,
                               mode = TRANSACTIONAL, is_running = True, pid = InvalidPid\<rparr> fmempty,
                           capacity = 1024\<rparr>\<rparr>,
        [SpinLockAcquire elock, SpinLockRelease elock,
         elog LOG ''%s has been shutdown in Transactional mode'',
         LWLockAcquire LW_SHARED, LWLockRelease, LWLockAcquire LW_EXCLUSIVE,
         SpinLockInit (mutex 16384), SpinLockAcquire (mutex 16384), SpinLockRelease (mutex 16384),
         LWLockRelease, SpinLockAcquire elock, SpinLockRelease elock])
   \<and> shutdown_transactional ''app_db''
        (env_no_worker_slot\<lparr>registered := True, startup_status := BGWH_STARTED, worker_pid := 4242\<rparr>)
        (fst (snd (shutdown_transactional ''app_db'' env_no_worker_slot (sddb_shmem_startup 1024))))
     = (Inr (),
        fst (snd (shutdown_transactional ''app_db'' env_no_worker_slot (sddb_shmem_startup 1024))),
        [SpinLockAcquire elock, SpinLockRelease elock, LWLockAcquire LW_SHARED, LWLockRelease,
         elog WARNING ''%s is already shutdown.''])
   \<and> sddb_ExecutorStart 16384 False
        (fst (snd (shutdown_transactional ''app_db'' env_no_worker_slot (sddb_shmem_startup 1024))))
     = Some [SpinLockAcquire elock, SpinLockRelease elock,
             SpinLockAcquire elock, SpinLockRelease elock,
             LWLockAcquire LW_SHARED, LWLockRelease,
             SpinLockAcquire (mutex 16384), SpinLockRelease (mutex 16384),
             elog WARNING shutdown_warning]"
  by (simp add: shutdown_transactional_def env_no_worker_slot_def check_workenv_def
      check_dbname_def pg_strcasecmp_eq_def pg_tolower_def get_dbid_def do_alter_database_def
      run_sddb_killer_def sddb_killer_launch_def SPI_OK_SELECT_def SPI_OK_UTILITY_def
      sddb_ExecutorStart_def sddb_intercept_def sddb_check_ht_def eval_defs)

text \<open>
  C5. The claim: in every state reached by the operations of the system, a live record
  whose pid is \<open>InvalidPid\<close> has \<open>is_running = false\<close>.

  Against it: the store made by \<open>shutdown_transactional\<close> on the empty registry creates
  a record with \<open>is_running = true\<close> and pid \<open>InvalidPid\<close>.
\<close>

theorem store_transactional_unregistered_running:
  "lookup_entry 16384 (run_ops [Store 16384 TRANSACTIONAL True] (sddb_shmem_startup 1024))
     = Some \<lparr>key = 0, dbid = 16384, mode = TRANSACTIONAL, is_running = True,
             pid = InvalidPid\<rparr>"
  by (simp add: eval_defs)

text \<open>
  C5, amended. In every state reached from the empty registry by the calls the
  repository makes (stores with \<open>is_running = true\<close> for mode \<open>TRANSACTIONAL\<close> only, the
  registration of a real pid, \<open>is_running\<close> set to \<open>false\<close>, deletion), a live record
  whose pid is \<open>InvalidPid\<close> and whose \<open>is_running\<close> is \<open>true\<close> is a \<open>TRANSACTIONAL\<close>
  record: one whose watcher has not registered yet. Every other record without a pid
  has \<open>is_running = false\<close>.
\<close>

theorem unregistered_running_is_transactional:
  assumes "list_all issued xs"
    and "lookup_entry d (run_ops xs (sddb_shmem_startup n)) = Some e"
    and "pid e = InvalidPid" and "is_running e"
  shows "mode e = TRANSACTIONAL"
proof -
  have "mode e' = TRANSACTIONAL"
    if "lookup_entry d' (sddb_shmem_startup n) = Some e'" for d' e'
    using that by (simp add: lookup_entry_def sddb_shmem_startup_def hash_find_def)
  from run_ops_unregistered_running [OF assms(1) this assms(2,3,4)] show ?thesis .
qed

text \<open>
  The theorem at a sequence that shuts down database 7 normally and database 16384
  transactionally, and then works on database 7.
\<close>

theorem unregistered_running_is_transactional_witness:
  "list_all issued [Store 7 NORMAL False, Store 16384 TRANSACTIONAL True, SetPid 7 4242,
                    SetRunning 7 False, Delete 7]
   \<and> lookup_entry 16384
        (run_ops [Store 7 NORMAL False, Store 16384 TRANSACTIONAL True, SetPid 7 4242,
                  SetRunning 7 False, Delete 7] (sddb_shmem_startup 1024))
       = Some \<lparr>key = 0, dbid = 16384, mode = TRANSACTIONAL, is_running = True,
               pid = InvalidPid\<rparr>
   \<and> mode \<lparr>key = 0, dbid = 16384, mode = TRANSACTIONAL, is_running = True,
            pid = InvalidPid\<rparr> = TRANSACTIONAL"
proof -
  have a: "list_all issued [Store 7 NORMAL False, Store 16384 TRANSACTIONAL True, SetPid 7 4242,
                    SetRunning 7 False, Delete 7]"
    by (simp add: InvalidPid_def)
  have b: "lookup_entry 16384
        (run_ops [Store 7 NORMAL False, Store 16384 TRANSACTIONAL True, SetPid 7 4242,
                  SetRunning 7 False, Delete 7] (sddb_shmem_startup 1024))
       = Some \<lparr>key = 0, dbid = 16384, mode = TRANSACTIONAL, is_running = True,
               pid = InvalidPid\<rparr>"
    by (simp add: eval_defs)
  from unregistered_running_is_transactional [OF a b] a b show ?thesis by simp
qed

text \<open>
  C6. The claim: the test made at each unit-of-work boundary is true, and the session
  warned, exactly when the current database has a record in the registry, in any mode,
  and the session is not inside a transaction block.

  Against it: database 16384 is shut down in normal mode (its record has
  \<open>is_running = false\<close>), the session is not in a transaction block, and the test is
  false and \<open>sddb_ExecutorStart\<close> logs no warning. And a session of database 65536, which
  has no record of its own, is warned when database 16384 has a running record, because
  the table takes the two for one key.
\<close>

theorem intercept_misses_normal_shutdown:
  "lookup_entry 16384 registry_one_normal
     = Some \<lparr>key = 0, dbid = 16384, mode = NORMAL, is_running = False, pid = InvalidPid\<rparr>
   \<and> sddb_intercept 16384 False registry_one_normal
     = Some (False, [SpinLockAcquire elock, SpinLockRelease elock,
                     SpinLockAcquire elock, SpinLockRelease elock,
                     LWLockAcquire LW_SHARED, LWLockRelease,
                     SpinLockAcquire (mutex 16384), SpinLockRelease (mutex 16384)])
   \<and> sddb_ExecutorStart 16384 False registry_one_normal
     = Some [SpinLockAcquire elock, SpinLockRelease elock,
             SpinLockAcquire elock, SpinLockRelease elock,
             LWLockAcquire LW_SHARED, LWLockRelease,
             SpinLockAcquire (mutex 16384), SpinLockRelease (mutex 16384)]
   \<and> sddb_ExecutorStart 65536 False
        (run_ops [Store 16384 TRANSACTIONAL True] (sddb_shmem_startup 1024))
     = Some [SpinLockAcquire elock, SpinLockRelease elock,
             SpinLockAcquire elock, SpinLockRelease elock,
             LWLockAcquire LW_SHARED, LWLockRelease,
             SpinLockAcquire (mutex 65536), SpinLockRelease (mutex 65536),
             elog WARNING shutdown_warning]"
  by (simp add: eval_defs registry_one_normal_def sddb_intercept_def sddb_check_ht_def
      sddb_ExecutorStart_def)

text \<open>
  C6, amended. \<open>sddb_check_ht\<close> asks \<open>sddb_find_entry\<close> for running records only. With
  \<open>sddb\<close> attached and \<open>num_ht\<close> equal to the number of live records, the test is true,
  and both hooks append the warning to what they log, exactly when the table's look-up
  for the current database finds a record whose \<open>is_running\<close> is set and the session is
  not inside a transaction block; nothing else is logged.
\<close>

theorem sddb_intercept_running_records:
  assumes "sddb g = Some s" and "record_count g = int (live_records g)"
  shows "\<exists>ev. sddb_intercept my in_block g
                = Some ((\<exists>e. lookup_entry my g = Some e \<and> is_running e) \<and> \<not> in_block, ev)
           \<and> sddb_ExecutorStart my in_block g
                = Some (if (\<exists>e. lookup_entry my g = Some e \<and> is_running e) \<and> \<not> in_block
                        then ev @ [elog WARNING shutdown_warning] else ev)
           \<and> sddb_ProcessUtility my in_block g
                = Some (if (\<exists>e. lookup_entry my g = Some e \<and> is_running e) \<and> \<not> in_block
                        then ev @ [elog WARNING shutdown_warning] else ev)
           \<and> (\<forall>l t. elog l t \<notin> set ev)"
proof -
  from sddb_check_ht_running [OF assms] obtain ev where
    ev: "sddb_check_ht my g = Some ((\<exists>e. lookup_entry my g = Some e \<and> is_running e), ev)"
      "\<forall>l t. elog l t \<notin> set ev"
    by blast
  from ev(1) have i: "sddb_intercept my in_block g
      = Some ((\<exists>e. lookup_entry my g = Some e \<and> is_running e) \<and> \<not> in_block, ev)"
    by (simp add: sddb_intercept_def)
  from i have "sddb_ExecutorStart my in_block g
                = Some (if (\<exists>e. lookup_entry my g = Some e \<and> is_running e) \<and> \<not> in_block
                        then ev @ [elog WARNING shutdown_warning] else ev)"
    by (simp add: sddb_ExecutorStart_def)
  moreover from i have "sddb_ProcessUtility my in_block g
                = Some (if (\<exists>e. lookup_entry my g = Some e \<and> is_running e) \<and> \<not> in_block
                        then ev @ [elog WARNING shutdown_warning] else ev)"
    by (simp add: sddb_ProcessUtility_def)
  ultimately show ?thesis using i ev(2) by blast
qed

text \<open>The theorem at the watched database 5, outside and inside a transaction block.\<close>

theorem sddb_intercept_running_records_witness:
  "sddb_ExecutorStart 5 False registry_one_watched
     = Some [SpinLockAcquire elock, SpinLockRelease elock,
             SpinLockAcquire elock, SpinLockRelease elock,
             LWLockAcquire LW_SHARED, LWLockRelease,
             SpinLockAcquire (mutex 5), SpinLockRelease (mutex 5),
             elog WARNING shutdown_warning]
   \<and> sddb_ExecutorStart 5 True registry_one_watched
     = Some [SpinLockAcquire elock, SpinLockRelease elock,
             SpinLockAcquire elock, SpinLockRelease elock,
             LWLockAcquire LW_SHARED, LWLockRelease,
             SpinLockAcquire (mutex 5), SpinLockRelease (mutex 5)]"
proof -
  have a: "sddb registry_one_watched = Some \<lparr>num_ht = 1, num_bgw = 1\<rparr>"
    by (simp add: registry_one_watched_def)
  have b: "record_count registry_one_watched = int (live_records registry_one_watched)"
    by (simp add: registry_one_watched_def record_count_def live_records_def
        fcard_finsert_if fcard_fempty)
  have r: "\<exists>e. lookup_entry 5 registry_one_watched = Some e \<and> is_running e"
    by (simp add: registry_one_watched_def eval_defs)
  from sddb_intercept_running_records [OF a b, of 5 False] r obtain ev where
    f: "sddb_intercept 5 False registry_one_watched = Some (True, ev)"
      "sddb_ExecutorStart 5 False registry_one_watched = Some (ev @ [elog WARNING shutdown_warning])"
    by auto
  from sddb_intercept_running_records [OF a b, of 5 True] r obtain ev' where
    t: "sddb_intercept 5 True registry_one_watched = Some (False, ev')"
      "sddb_ExecutorStart 5 True registry_one_watched = Some ev'"
    by auto
  have "sddb_intercept 5 False registry_one_watched
     = Some (True, [SpinLockAcquire elock, SpinLockRelease elock,
             SpinLockAcquire elock, SpinLockRelease elock,
             LWLockAcquire LW_SHARED, LWLockRelease,
             SpinLockAcquire (mutex 5), SpinLockRelease (mutex 5)])"
    by (simp add: eval_defs registry_one_watched_def sddb_intercept_def sddb_check_ht_def)
  with f have "ev = [SpinLockAcquire elock, SpinLockRelease elock,
             SpinLockAcquire elock, SpinLockRelease elock,
             LWLockAcquire LW_SHARED, LWLockRelease,
             SpinLockAcquire (mutex 5), SpinLockRelease (mutex 5)]" by simp
  moreover have "sddb_intercept 5 True registry_one_watched
     = Some (False, [SpinLockAcquire elock, SpinLockRelease elock,
             SpinLockAcquire elock, SpinLockRelease elock,
             LWLockAcquire LW_SHARED, LWLockRelease,
             SpinLockAcquire (mutex 5), SpinLockRelease (mutex 5)])"
    by (simp add: eval_defs registry_one_watched_def sddb_intercept_def sddb_check_ht_def)
  with t have "ev' = [SpinLockAcquire elock, SpinLockRelease elock,
             SpinLockAcquire elock, SpinLockRelease elock,
             LWLockAcquire LW_SHARED, LWLockRelease,
             SpinLockAcquire (mutex 5), SpinLockRelease (mutex 5)]" by simp
  ultimately show ?thesis using f(2) t(2) by simp
qed

text \<open>
  C7. The claim: every entry point of the store, called on a registry that is not
  attached, gives a result that differs from the one it gives on an attached registry
  where the key is not found.

  Against it: for database 6, which the attached registry does not hold, the look-up,
  both setters and \<open>sddb_get_pid\<close> return the same value in both situations.
\<close>

theorem detached_same_as_not_found:
  "fst (sddb_find_entry 6 False detached) = False
   \<and> fst (sddb_find_entry 6 False registry_one_watched) = False
   \<and> fst (sddb_set_entry 6 False detached) = False
   \<and> fst (sddb_set_entry 6 False registry_one_watched) = False
   \<and> fst (sddb_set_pid2entry 6 77 detached) = False
   \<and> fst (sddb_set_pid2entry 6 77 registry_one_watched) = False
   \<and> fst (sddb_get_pid 6 False detached) = InvalidPid
   \<and> fst (sddb_get_pid 6 False registry_one_watched) = InvalidPid"
  by (simp add: eval_defs detached_def registry_one_watched_def)

text \<open>
  C7, amended. Every entry point of the store notices a registry that is not attached
  and returns its ordinary failure value with the state untouched and nothing logged.
  For \<open>sddb_find_entry\<close>, \<open>sddb_set_entry\<close>, \<open>sddb_set_pid2entry\<close> (\<open>false\<close>) and
  \<open>sddb_get_pid\<close> (\<open>InvalidPid\<close>) this is the value they return on an attached registry
  in which the key is not found; \<open>sddb_delete_entry\<close> returns nothing and leaves the
  table as it is in both situations. Only the result of \<open>sddb_store_entry\<close> tells the
  two apart: \<open>false\<close> when the registry is not attached, \<open>true\<close> when the key is not
  found and the table has room.
\<close>

theorem detached_entry_points:
  assumes det: "sddb g = None \<or> sddb_hash g = None"
    and att: "sddb g' = Some s" "sddb_hash g' = Some h"
    and absent: "hash_find d h = None"
  shows "sddb_find_entry d r g = (False, []) \<and> fst (sddb_find_entry d r g') = False
       \<and> sddb_set_entry d r g = (False, g, []) \<and> fst (sddb_set_entry d r g') = False
       \<and> sddb_set_pid2entry d p g = (False, g, []) \<and> fst (sddb_set_pid2entry d p g') = False
       \<and> sddb_get_pid d a g = (InvalidPid, []) \<and> fst (sddb_get_pid d a g') = InvalidPid
       \<and> sddb_delete_entry d g = (g, [])
       \<and> sddb_hash (fst (sddb_delete_entry d g')) = sddb_hash g'
       \<and> sddb_store_entry d m r g = (False, g, [])
       \<and> (fcard (fmdom (entries h)) < capacity h \<longrightarrow> fst (sddb_store_entry d m r g') = True)"
proof -
  have find: "sddb_find_entry d r g = (False, [])"
    using det by (auto simp add: sddb_find_entry_def split: option.splits)
  have find': "fst (sddb_find_entry d r g') = False"
    using att absent by (simp add: sddb_find_entry_def)
  have set: "sddb_set_entry d r g = (False, g, [])"
    using det by (auto simp add: sddb_set_entry_def split: option.splits)
  have set': "fst (sddb_set_entry d r g') = False"
    using att absent by (simp add: sddb_set_entry_absent)
  have setpid: "sddb_set_pid2entry d p g = (False, g, [])"
    using det by (auto simp add: sddb_set_pid2entry_def split: option.splits)
  have setpid': "fst (sddb_set_pid2entry d p g') = False"
    using att absent by (simp add: sddb_set_pid2entry_absent)
  have get: "sddb_get_pid d a g = (InvalidPid, [])"
    using det by (auto simp add: sddb_get_pid_def split: option.splits)
  have get': "fst (sddb_get_pid d a g') = InvalidPid"
    using att absent by (simp add: sddb_get_pid_def)
  have del: "sddb_delete_entry d g = (g, [])"
    using det by (auto simp add: sddb_delete_entry_def split: option.splits)
  from absent have "string_key d |\<notin>| fmdom (entries h)" by (simp add: hash_find_def fmdom_notI)
  then have "fmdrop (string_key d) (entries h) = entries h" by (rule fmdrop_idle)
  then have "hash_remove d h = h" by (simp add: hash_remove_def)
  with att have del': "sddb_hash (fst (sddb_delete_entry d g')) = sddb_hash g'"
    by (simp add: sddb_delete_entry_attached)
  have store: "sddb_store_entry d m r g = (False, g, [])"
    using det by (auto simp add: sddb_store_entry_def split: option.splits)
  have store': "fst (sddb_store_entry d m r g') = True"
    if "fcard (fmdom (entries h)) < capacity h"
    using att absent that by (simp add: sddb_store_entry_new)
  from find find' set set' setpid setpid' get get' del del' store store'
  show ?thesis by simp
qed

text \<open>
  The theorem at the detached process, the registry that holds database 5 only, and
  database 6.
\<close>

theorem detached_entry_points_witness:
  "fst (sddb_find_entry 6 False detached) = fst (sddb_find_entry 6 False registry_one_watched)
   \<and> fst (sddb_set_entry 6 False detached) = fst (sddb_set_entry 6 False registry_one_watched)
   \<and> fst (sddb_set_pid2entry 6 77 detached)
       = fst (sddb_set_pid2entry 6 77 registry_one_watched)
   \<and> fst (sddb_get_pid 6 True detached) = fst (sddb_get_pid 6 True registry_one_watched)
   \<and> sddb_delete_entry 6 detached = (detached, [])
   \<and> sddb_hash (fst (sddb_delete_entry 6 registry_one_watched)) = sddb_hash registry_one_watched
   \<and> fst (sddb_store_entry 6 NORMAL False detached) = False
   \<and> fst (sddb_store_entry 6 NORMAL False registry_one_watched) = True"
proof -
  have det: "sddb detached = None \<or> sddb_hash detached = None"
    by (simp add: detached_def)
  have a: "sddb registry_one_watched = Some \<lparr>num_ht = 1, num_bgw = 1\<rparr>"
    by (simp add: registry_one_watched_def)
  have b: "sddb_hash registry_one_watched =
      Some \<lparr>entries = fmupd 5 \<lparr>key = 5, dbid = 5, mode = TRANSACTIONAL,
                                 is_running = True, pid = 4242\<rparr> fmempty,
             capacity = 1024\<rparr>"
    by (simp add: registry_one_watched_def)
  have c: "hash_find 6 \<lparr>entries = fmupd 5 \<lparr>key = 5, dbid = 5, mode = TRANSACTIONAL,
                                 is_running = True, pid = 4242\<rparr> fmempty,
             capacity = 1024\<rparr> = None"
    by (simp add: hash_find_def string_key_def)
  have room: "fcard (fmdom (entries \<lparr>entries = fmupd 5 \<lparr>key = 5, dbid = 5,
                 mode = TRANSACTIONAL, is_running = True, pid = 4242\<rparr> fmempty,
               capacity = 1024\<rparr>))
        < capacity \<lparr>entries = fmupd 5 \<lparr>key = 5, dbid = 5, mode = TRANSACTIONAL,
                                 is_running = True, pid = 4242\<rparr> fmempty,
             capacity = 1024\<rparr>"
    by (simp add: fcard_finsert_if fcard_fempty)
  from detached_entry_points [OF det a b c, of False 77 True NORMAL] room
  show ?thesis by simp
qed




text \<open>
  C9. The claim: a watcher that leaves its main loop because a stop signal was observed
  decrements \<open>num_bgw\<close> and exits with success, without changing \<open>is_running\<close>.

  The code when SIGTERM arrives while the poll of the first pass is running and three
  sessions are still busy: the flag is first seen by the loop condition, the loop ends,
  and the watcher reaches \<open>proc_exit(1)\<close> with \<open>num_bgw\<close> still 1. The same signal seen
  by the check after the wait gives \<open>proc_exit(0)\<close> and \<open>num_bgw = 0\<close>.
\<close>

theorem sddb_killer_main_sigterm_at_loop_test:
  "sddb_killer_main 5 4242
     [busy_pass, busy_pass\<lparr>sigterm_at_loop_test := True\<rparr>] registry_one_unwatched
     = (proc_exit 1,
        \<lparr>sddb = Some \<lparr>num_ht = 1, num_bgw = 1\<rparr>,
         sddb_hash = Some \<lparr>entries = fmupd 5 \<lparr>key = 5, dbid = 5, mode = TRANSACTIONAL,
                                              is_running = True, pid = 4242\<rparr> fmempty,
                           capacity = 1024\<rparr>\<rparr>,
        [LWLockAcquire LW_EXCLUSIVE, SpinLockAcquire (mutex 5), SpinLockRelease (mutex 5),
         LWLockRelease, SpinLockAcquire elock, SpinLockRelease elock])
   \<and> sddb_killer_main 5 4242
     [busy_pass, busy_pass\<lparr>sigterm_after_wait := True\<rparr>] registry_one_unwatched
     = (proc_exit 0,
        \<lparr>sddb = Some \<lparr>num_ht = 1, num_bgw = 0\<rparr>,
         sddb_hash = Some \<lparr>entries = fmupd 5 \<lparr>key = 5, dbid = 5, mode = TRANSACTIONAL,
                                              is_running = True, pid = 4242\<rparr> fmempty,
                           capacity = 1024\<rparr>\<rparr>,
        [LWLockAcquire LW_EXCLUSIVE, SpinLockAcquire (mutex 5), SpinLockRelease (mutex 5),
         LWLockRelease, SpinLockAcquire elock, SpinLockRelease elock,
         SpinLockAcquire elock, SpinLockRelease elock])"
  by (simp add: sddb_killer_main_def registry_one_unwatched_def busy_pass_def dec_num_bgw_def
      SPI_OK_SELECT_def eval_defs)

text \<open>
  C10. The claim: \<open>sddb_set_entry\<close> changes only \<open>is_running\<close> and \<open>sddb_set_pid2entry\<close>
  only \<open>pid\<close> of the record, and consequently the mode of a record is set at its creation
  and never modified by any operation until the record is removed.

  The code when the bootstrap worker stores database 5 in mode \<open>INIT\<close> between the probe
  and the exclusive phase of a transactional shutdown request for the same database: the
  record created with mode \<open>INIT\<close> is still there, never removed, and the exclusive phase
  rewrites its mode to \<open>TRANSACTIONAL\<close> and its running flag to \<open>true\<close>.
\<close>

theorem mode_rewritten_by_exclusive_phase:
  "lookup_entry 5 (run_ops [Store 5 INIT False] (sddb_shmem_startup 1024))
     = Some \<lparr>key = 5, dbid = 5, mode = INIT, is_running = False, pid = InvalidPid\<rparr>
   \<and> lookup_entry 5
        (run_ops [Store 5 INIT False, StoreExclusive 5 TRANSACTIONAL True]
           (sddb_shmem_startup 1024))
     = Some \<lparr>key = 5, dbid = 5, mode = TRANSACTIONAL, is_running = True, pid = InvalidPid\<rparr>
   \<and> live_records
        (run_ops [Store 5 INIT False, StoreExclusive 5 TRANSACTIONAL True]
           (sddb_shmem_startup 1024)) = 1"
  by (simp add: eval_defs)

end
